theory Spec2Isabelle
  imports Complex_Main "HOL-Library.Product_Lexorder"
begin

section \<open>Operations, configuration and collaborators\<close>

text \<open>
  A \<^verbatim>\<open>datetime\<close> has its field values (year, month, day, hour, minute, second,
  microsecond) and its \<^verbatim>\<open>tzinfo\<close>, which is \<^verbatim>\<open>None\<close> for a timezone-naive value.
  The times of the ledger are timezone-aware, in UTC; \<^verbatim>\<open>datetime.datetime(...)\<close> and
  \<^verbatim>\<open>datetime.datetime.now()\<close> without a time zone are naive. Two aware times in UTC, and
  two naive times, compare as their field tuples, lexicographically; Python refuses, with a
  \<^verbatim>\<open>TypeError\<close>, to compare or subtract an aware and a naive time.
\<close>

type_synonym timestamp = "int \<times> int \<times> int \<times> int \<times> int \<times> int \<times> int"

datatype timezone = UTC

record datetime =
  stamp :: timestamp
  tzinfo :: "timezone option"

definition year :: "datetime \<Rightarrow> int" where
  "year t = fst (stamp t)"

definition comparable :: "datetime \<Rightarrow> datetime \<Rightarrow> bool" where
  "comparable a b = ((tzinfo a = None) = (tzinfo b = None))"

text \<open>
  The classes of \<^verbatim>\<open>transaction.py\<close> that \<^verbatim>\<open>taxman.py\<close> tests with
  \<^verbatim>\<open>isinstance\<close>, in the order of its \<^verbatim>\<open>elif\<close> chain; \<open>Unknown\<close> is any other
  \<^verbatim>\<open>Operation\<close> (the chain's final \<^verbatim>\<open>else\<close>).
\<close>

datatype op_kind =
  Fee | CoinLend | CoinLendEnd | Staking | StakingEnd | Buy | Sell
  | CoinLendInterest | StakingInterest | Airdrop | Commission
  | Deposit | Withdrawal | Unknown

text \<open>
  The fields follow the constructor call \<^verbatim>\<open>tr.Sell(TAX_DEADLINE, op.platform, left_coin,
  coin, [-1], Path(""))\<close>. Amounts are Python \<^verbatim>\<open>Decimal\<close>s: a \<^verbatim>\<open>Decimal\<close> is modelled by
  its value, a rational number.
\<close>

record operation =
  kind :: op_kind
  utc_time :: datetime
  platform :: string
  change :: rat
  coin :: string
  line :: "int list"
  file_path :: string

text \<open>\<^verbatim>\<open>SoldCoin\<close>: the fields \<^verbatim>\<open>sc.op\<close> and \<^verbatim>\<open>sc.sold\<close>.\<close>

record sold_coin =
  sc_op :: operation
  sold :: rat

datatype taxation_type =
  Sonstige_Einkuenfte
  | Einkuenfte_aus_Kapitalvermoegen
  | Einkuenfte_aus_sonstigen_Leistungen

text \<open>
  \<^verbatim>\<open>TaxEvent(taxation_type, taxed_gain, op, sell_value, real_gain, remark)\<close>; the last
  three default to zero and the empty string. The remark joins, per sold coin, the amount,
  the time and the class name of its operation: it is kept as the list of these triples.
\<close>

record tax_event =
  taxation_type :: taxation_type
  taxed_gain :: rat
  tx_op :: operation
  sell_value :: rat
  real_gain :: rat
  remark :: "(rat \<times> datetime \<times> op_kind) list"

datatype principle = FIFO | LIFO

record config =
  TAX_YEAR :: int
  FIAT :: string
  PRINCIPLE :: principle
  MULTI_DEPOT :: bool
  CALCULATE_UNREALIZED_GAINS :: bool
  IS_LONG_TERM :: "timestamp \<Rightarrow> timestamp \<Rightarrow> bool"

text \<open>
  What \<^verbatim>\<open>taxman.py\<close> calls outside itself and the balance queue, taken as parameters:
  \<^verbatim>\<open>PriceData.get_cost\<close> on an operation and on a sold coin, \<^verbatim>\<open>misc.is_fiat\<close>, and the
  field values of \<^verbatim>\<open>datetime.datetime.now()\<close> when the module is loaded.
\<close>

record collaborators =
  get_cost :: "operation \<Rightarrow> rat"
  get_cost_sc :: "sold_coin \<Rightarrow> rat"
  is_fiat :: "string \<Rightarrow> bool"
  now :: timestamp

datatype error =
  RuntimeError_single_fee
  | NotImplementedError
  | AssertionError_stake_fiat
  | AssertionError_after_tax_year
  | AssertionError_sanity_check
  | NonPositiveChange
  | InsufficientBalance
  | DivisionByZero
  | NameError
  | TypeError

text \<open>
  \<^verbatim>\<open>TAX_DEADLINE\<close> is the smaller of two naive times, and naive. (The method
  \<^verbatim>\<open>tax_deadline\<close>, which makes the same time aware with \<^verbatim>\<open>astimezone()\<close>, is not
  called.)
\<close>

definition TAX_DEADLINE :: "config \<Rightarrow> collaborators \<Rightarrow> datetime" where
  "TAX_DEADLINE cfg ext =
     \<lparr>stamp = min (TAX_YEAR cfg, 12, 31, 23, 59, 59, 0) (now ext), tzinfo = None\<rparr>"

definition in_tax_year :: "config \<Rightarrow> operation \<Rightarrow> bool" where
  "in_tax_year cfg op = (year (utc_time op) = TAX_YEAR cfg)"

text \<open>
  Modelled from the spec: \<^verbatim>\<open>config.py\<close> is not among the sources. The call
  \<^verbatim>\<open>config.IS_LONG_TERM(buy, sell)\<close> decides whether the holding period from the first
  time to the second exceeds the threshold of the jurisdiction; the configuration gives
  the test on the field values, and the comparison of the two times raises a
  \<^verbatim>\<open>TypeError\<close> when one is aware and the other naive.
\<close>

definition is_long_term :: "config \<Rightarrow> datetime \<Rightarrow> datetime \<Rightarrow> error + bool" where
  "is_long_term cfg buy sell =
     (if comparable buy sell then Inr (IS_LONG_TERM cfg (stamp buy) (stamp sell))
      else Inl TypeError)"

section \<open>Decimal arithmetic\<close>

text \<open>
  The arithmetic of \<^verbatim>\<open>decimal.Decimal\<close> under the default context: the exact result
  is rounded to 28 significant digits, a tie to the even digit (\<^verbatim>\<open>ROUND_HALF_EVEN\<close>).
  \<open>digits\<close> counts the decimal digits of a positive integer, \<open>adjusted\<close> is the exponent
  of the leading digit of a nonzero value. The bounds of the context on the exponent
  (\<^verbatim>\<open>Emax\<close>, \<^verbatim>\<open>Emin\<close>: a million digits) are not modelled.
\<close>

function digits :: "int \<Rightarrow> nat" where
  "digits n = (if n < 10 then 1 else Suc (digits (n div 10)))"
  by pat_completeness auto
termination
  by (relation "measure nat") auto

declare digits.simps [simp del]

definition adjusted :: "rat \<Rightarrow> int" where
  "adjusted x =
     (let k = int (digits (fst (quotient_of \<bar>x\<bar>))) - int (digits (snd (quotient_of \<bar>x\<bar>)))
      in if 10 powi k \<le> \<bar>x\<bar> then k else k - 1)"

definition round_half_even :: "rat \<Rightarrow> int" where
  "round_half_even q =
     (let f = \<lfloor>q\<rfloor>; r = q - of_int f
      in if r < 1 / 2 then f
         else if 1 / 2 < r then f + 1
         else if even f then f else f + 1)"

definition decimal_round :: "rat \<Rightarrow> rat" where
  "decimal_round x =
     (if x = 0 then 0
      else of_int (round_half_even (x / 10 powi (adjusted x - 27))) * 10 powi (adjusted x - 27))"

definition dec_add :: "rat \<Rightarrow> rat \<Rightarrow> rat" where
  "dec_add x y = decimal_round (x + y)"

definition dec_sub :: "rat \<Rightarrow> rat \<Rightarrow> rat" where
  "dec_sub x y = decimal_round (x - y)"

definition dec_mul :: "rat \<Rightarrow> rat \<Rightarrow> rat" where
  "dec_mul x y = decimal_round (x * y)"

text \<open>The division raises on a zero divisor.\<close>

definition dec_div :: "rat \<Rightarrow> rat \<Rightarrow> error + rat" where
  "dec_div x y = (if y = 0 then Inl DivisionByZero else Inr (decimal_round (x / y)))"

section \<open>The balance queue\<close>

text \<open>
  Modelled from the spec: \<^verbatim>\<open>balance_queue.py\<close> is not among the sources. A lot is a
  slice of an acquisition; \<open>not_sold\<close> is the attribute \<^verbatim>\<open>taxman.py\<close> reads on the
  entries of \<^verbatim>\<open>balance.queue\<close>, the remaining amount.
\<close>

record lot =
  origin_operation :: operation
  total_amount :: rat
  remaining_amount :: rat

type_synonym balance_queue = "lot list"

definition not_sold :: "lot \<Rightarrow> rat" where
  "not_sold bop = remaining_amount bop"

text \<open>
  Modelled from the spec: \<^verbatim>\<open>BalanceQueue.add\<close> appends a new lot with total and
  remaining amount \<^verbatim>\<open>op.change\<close>; a non-positive change is fatal.
\<close>

definition new_lot :: "operation \<Rightarrow> lot" where
  "new_lot op =
     \<lparr>origin_operation = op, total_amount = change op, remaining_amount = change op\<rparr>"

definition balance_add :: "balance_queue \<Rightarrow> operation \<Rightarrow> error + balance_queue" where
  "balance_add q op =
     (if change op \<le> 0 then Inl NonPositiveChange else Inr (q @ [new_lot op]))"

text \<open>
  Modelled from the spec: the lots in the order of the policy, oldest acquisition first
  (FIFO) or newest first (LIFO). The times of the lots are times of the ledger.
\<close>

definition eligible :: "principle \<Rightarrow> lot list \<Rightarrow> lot list" where
  "eligible p q =
     (case p of
        FIFO \<Rightarrow> sort_key (\<lambda>l. stamp (utc_time (origin_operation l))) q
      | LIFO \<Rightarrow> rev (sort_key (\<lambda>l. stamp (utc_time (origin_operation l))) q))"

text \<open>
  Modelled from the spec: for each lot in order, consume the minimum of its remaining
  amount and the amount still needed, decrement the lot and emit a consumption record,
  until the amount is satisfied. A lot that reaches zero is evicted.
\<close>

fun consume :: "lot list \<Rightarrow> rat \<Rightarrow> lot list \<times> sold_coin list" where
  "consume [] needed = ([], [])"
| "consume (l # ls) needed =
     (if needed \<le> 0 then (l # ls, [])
      else
        let taken = min (remaining_amount l) needed;
            l' = l\<lparr>remaining_amount := remaining_amount l - taken\<rparr>;
            rest = consume ls (needed - taken)
        in ((if remaining_amount l' = 0 then [] else [l']) @ fst rest,
            \<lparr>sc_op = origin_operation l, sold = taken\<rparr> # snd rest))"

text \<open>
  Modelled from the spec: \<^verbatim>\<open>BalanceQueue.remove\<close> consumes \<^verbatim>\<open>abs(op.change)\<close> and fails
  when the lots hold less than that.
\<close>

definition balance_remove ::
  "principle \<Rightarrow> balance_queue \<Rightarrow> operation \<Rightarrow> error + balance_queue \<times> sold_coin list" where
  "balance_remove p q op =
     (if sum_list (map not_sold q) < \<bar>change op\<bar> then Inl InsufficientBalance
      else Inr (consume (eligible p q) \<bar>change op\<bar>))"

text \<open>
  Modelled from the spec: \<^verbatim>\<open>BalanceQueue.sanity_check\<close> asserts that the balance and
  every lot's remaining amount are not negative.
\<close>

definition balance_sanity_check :: "balance_queue \<Rightarrow> error + unit" where
  "balance_sanity_check q =
     (if sum_list (map not_sold q) < 0 \<or> (\<exists>l \<in> set q. remaining_amount l < 0)
      then Inl AssertionError_sanity_check else Inr ())"

section \<open>The evaluation of a sell\<close>

text \<open>
  The test of the loop: \<^verbatim>\<open>IS_LONG_TERM\<close> is called first, for every sold coin.
\<close>

definition is_taxable :: "config \<Rightarrow> sold_coin \<Rightarrow> operation \<Rightarrow> error + bool" where
  "is_taxable cfg sc op =
     (case is_long_term cfg (utc_time (sc_op sc)) (utc_time op) of
        Inl e \<Rightarrow> Inl e
      | Inr long_term \<Rightarrow>
          Inr (\<not> long_term
               \<and> \<not> (kind (sc_op sc) \<in> {Airdrop, CoinLendInterest, StakingInterest, Commission}
                    \<and> \<not> coin (sc_op sc) = FIAT cfg)))"

text \<open>
  The loop over \<^verbatim>\<open>sold_coins\<close> with its two accumulators, \<^verbatim>\<open>taxed_gain\<close> and
  \<^verbatim>\<open>real_gain\<close>, in decimal arithmetic.
\<close>

fun gains_loop ::
  "config \<Rightarrow> collaborators \<Rightarrow> operation \<Rightarrow> rat \<Rightarrow> sold_coin list \<Rightarrow> rat \<times> rat
   \<Rightarrow> error + rat \<times> rat" where
  "gains_loop cfg ext op sv [] (tg, rg) = Inr (tg, rg)"
| "gains_loop cfg ext op sv (sc # scs) (tg, rg) =
     (case is_taxable cfg sc op of
        Inl e \<Rightarrow> Inl e
      | Inr taxable \<Rightarrow>
          if taxable \<or> CALCULATE_UNREALIZED_GAINS cfg then
            (case dec_div (sold sc) (change op) of
               Inl e \<Rightarrow> Inl e
             | Inr share \<Rightarrow>
                 let partial_sell_value = dec_mul share sv;
                     sold_coin_cost = get_cost_sc ext sc;
                     gain = dec_sub partial_sell_value sold_coin_cost
                 in gains_loop cfg ext op sv scs
                      (if taxable then dec_add tg gain else tg,
                       if CALCULATE_UNREALIZED_GAINS cfg then dec_add rg gain else rg))
          else gains_loop cfg ext op sv scs (tg, rg))"

definition evaluate_sell ::
  "config \<Rightarrow> collaborators \<Rightarrow> string \<Rightarrow> balance_queue \<Rightarrow> operation \<Rightarrow> bool
   \<Rightarrow> error + balance_queue \<times> tax_event option" where
  "evaluate_sell cfg ext coin' balance op force =
     (case balance_remove (PRINCIPLE cfg) balance op of
        Inl e \<Rightarrow> Inl e
      | Inr (balance', sold_coins) \<Rightarrow>
          if coin' = FIAT cfg then Inr (balance', None)
          else if \<not> in_tax_year cfg op \<and> \<not> force then Inr (balance', None)
          else
            (case gains_loop cfg ext op (get_cost ext op) sold_coins (0, 0) of
               Inl e \<Rightarrow> Inl e
             | Inr (tg, rg) \<Rightarrow>
                 Inr (balance',
                      Some \<lparr>taxation_type = Sonstige_Einkuenfte,
                            taxed_gain = tg,
                            tx_op = op,
                            sell_value = get_cost ext op,
                            real_gain = rg,
                            remark = map (\<lambda>sc. (sold sc, utc_time (sc_op sc), kind (sc_op sc)))
                                       sold_coins\<rparr>)))"

section \<open>The taxation of a group\<close>

text \<open>
  The warnings \<^verbatim>\<open>taxman.py\<close> writes to the log, with the values the message is
  formatted from: change, coin, platform and time.
\<close>

datatype log_record =
  Unresolved_deposit rat string string datetime
  | Unresolved_withdrawal rat string string datetime

text \<open>
  The mutable part of a \<^verbatim>\<open>Taxman\<close>: the two event lists of \<^verbatim>\<open>__init__\<close>, and the
  warnings logged so far.
\<close>

record taxman =
  tax_events :: "tax_event list"
  virtual_tax_events :: "tax_event list"
  warnings :: "log_record list"

definition Taxman_init :: taxman where
  "Taxman_init = \<lparr>tax_events = [], virtual_tax_events = [], warnings = []\<rparr>"

text \<open>\<^verbatim>\<open>tr.TaxEvent(taxation_type, taxed_gain, op)\<close> with the defaults of the other fields.\<close>

definition TaxEvent :: "taxation_type \<Rightarrow> rat \<Rightarrow> operation \<Rightarrow> tax_event" where
  "TaxEvent tt tg op =
     \<lparr>taxation_type = tt, taxed_gain = tg, tx_op = op, sell_value = 0, real_gain = 0,
      remark = []\<rparr>"

definition append_tax_event :: "taxman \<Rightarrow> tax_event \<Rightarrow> taxman" where
  "append_tax_event self tx = self\<lparr>tax_events := tax_events self @ [tx]\<rparr>"

definition log_warning :: "taxman \<Rightarrow> log_record \<Rightarrow> taxman" where
  "log_warning self r = self\<lparr>warnings := warnings self @ [r]\<rparr>"

text \<open>
  The branch of \<^verbatim>\<open>isinstance(op, (tr.CoinLendInterest, tr.StakingInterest))\<close>: the
  interest is added to the queue and, in the tax year, taxed at its cost; on a fiat coin
  the assertion refuses a staking interest.
\<close>

definition interest_branch ::
  "config \<Rightarrow> collaborators \<Rightarrow> string \<Rightarrow> operation \<Rightarrow> balance_queue \<times> taxman
   \<Rightarrow> error + balance_queue \<times> taxman" where
  "interest_branch cfg ext coin' op st =
     (case st of (balance, self) \<Rightarrow>
        (case balance_add balance op of
           Inl e \<Rightarrow> Inl e
         | Inr balance' \<Rightarrow>
             if in_tax_year cfg op then
               if is_fiat ext coin' then
                 if kind op = StakingInterest then Inl AssertionError_stake_fiat
                 else
                   Inr (balance', append_tax_event self
                          (TaxEvent Einkuenfte_aus_Kapitalvermoegen (get_cost ext op) op))
               else
                 Inr (balance', append_tax_event self
                        (TaxEvent Einkuenfte_aus_sonstigen_Leistungen (get_cost ext op) op))
             else Inr (balance', self)))"

text \<open>
  One iteration of \<^verbatim>\<open>for op in operations\<close> on the group's balance queue and the
  taxman, the kinds in the order of the \<^verbatim>\<open>elif\<close> chain. The statements after the
  \<^verbatim>\<open>raise\<close> of the fee branch are never run. A \<^verbatim>\<open>TaxEvent\<close> is always true in the
  test \<^verbatim>\<open>if tx_ := evaluate_sell(op)\<close>.
\<close>

definition process_op ::
  "config \<Rightarrow> collaborators \<Rightarrow> string \<Rightarrow> operation \<Rightarrow> balance_queue \<times> taxman
   \<Rightarrow> error + balance_queue \<times> taxman" where
  "process_op cfg ext coin' op st =
     (case st of (balance, self) \<Rightarrow>
        (case kind op of
           Fee \<Rightarrow> Inl RuntimeError_single_fee
         | CoinLend \<Rightarrow> Inr (balance, self)
         | CoinLendEnd \<Rightarrow> Inr (balance, self)
         | Staking \<Rightarrow> Inr (balance, self)
         | StakingEnd \<Rightarrow> Inr (balance, self)
         | Buy \<Rightarrow>
             (case balance_add balance op of
                Inl e \<Rightarrow> Inl e
              | Inr balance' \<Rightarrow> Inr (balance', self))
         | Sell \<Rightarrow>
             (case evaluate_sell cfg ext coin' balance op False of
                Inl e \<Rightarrow> Inl e
              | Inr (balance', None) \<Rightarrow> Inr (balance', self)
              | Inr (balance', Some tx) \<Rightarrow> Inr (balance', append_tax_event self tx))
         | CoinLendInterest \<Rightarrow> interest_branch cfg ext coin' op (balance, self)
         | StakingInterest \<Rightarrow> interest_branch cfg ext coin' op (balance, self)
         | Airdrop \<Rightarrow>
             (case balance_add balance op of
                Inl e \<Rightarrow> Inl e
              | Inr balance' \<Rightarrow> Inr (balance', self))
         | Commission \<Rightarrow>
             (case balance_add balance op of
                Inl e \<Rightarrow> Inl e
              | Inr balance' \<Rightarrow>
                  if in_tax_year cfg op then
                    Inr (balance', append_tax_event self
                           (TaxEvent Einkuenfte_aus_sonstigen_Leistungen (get_cost ext op) op))
                  else Inr (balance', self))
         | Deposit \<Rightarrow>
             if coin' = FIAT cfg then
               (case balance_add balance op of
                  Inl e \<Rightarrow> Inl e
                | Inr balance' \<Rightarrow> Inr (balance', self))
             else
               Inr (balance,
                    log_warning self
                      (Unresolved_deposit (change op) coin' (platform op) (utc_time op)))
         | Withdrawal \<Rightarrow>
             if coin' = FIAT cfg then
               (case balance_remove (PRINCIPLE cfg) balance op of
                  Inl e \<Rightarrow> Inl e
                | Inr (balance', sold_coins) \<Rightarrow> Inr (balance', self))
             else
               Inr (balance,
                    log_warning self
                      (Unresolved_withdrawal (change op) coin' (platform op) (utc_time op)))
         | Unknown \<Rightarrow> Inl NotImplementedError))"

text \<open>
  The loop. An exception leaves the loop with the taxman as the iterations before it
  left it: the error is returned with that taxman.
\<close>

fun process_ops ::
  "config \<Rightarrow> collaborators \<Rightarrow> string \<Rightarrow> operation list \<Rightarrow> balance_queue \<times> taxman
   \<Rightarrow> error \<times> taxman + balance_queue \<times> taxman" where
  "process_ops cfg ext coin' [] st = Inr st"
| "process_ops cfg ext coin' (op # ops) st =
     (case process_op cfg ext coin' op st of
        Inl e \<Rightarrow> Inl (e, snd st)
      | Inr st' \<Rightarrow> process_ops cfg ext coin' ops st')"

text \<open>
  The virtual sell of the coins left in the queue. Its platform is that of the loop
  variable \<^verbatim>\<open>op\<close> after the loop, the last operation; the name is unbound when the
  loop never ran.
\<close>

definition virtual_sell ::
  "config \<Rightarrow> collaborators \<Rightarrow> string \<Rightarrow> operation list \<Rightarrow> rat \<Rightarrow> operation" where
  "virtual_sell cfg ext coin' operations left_coin =
     \<lparr>kind = Sell, utc_time = TAX_DEADLINE cfg ext, platform = platform (last operations),
      change = left_coin, coin = coin', line = [- 1], file_path = []\<rparr>"

definition evaluate_taxation_GERMANY ::
  "config \<Rightarrow> collaborators \<Rightarrow> string \<Rightarrow> operation list \<Rightarrow> taxman
   \<Rightarrow> error \<times> taxman + taxman" where
  "evaluate_taxation_GERMANY cfg ext coin' operations self =
     (case process_ops cfg ext coin' operations ([], self) of
        Inl x \<Rightarrow> Inl x
      | Inr (balance, self') \<Rightarrow>
          (case balance_sanity_check balance of
             Inl e \<Rightarrow> Inl (e, self')
           | Inr u \<Rightarrow>
               if CALCULATE_UNREALIZED_GAINS cfg \<and> sum_list (map not_sold balance) \<noteq> 0 then
                 if operations = [] then Inl (NameError, self')
                 else
                   (case evaluate_sell cfg ext coin' balance
                           (virtual_sell cfg ext coin' operations
                              (sum_list (map not_sold balance))) True of
                      Inl e \<Rightarrow> Inl (e, self')
                    | Inr (balance', None) \<Rightarrow> Inr self'
                    | Inr (balance', Some tx) \<Rightarrow>
                        Inr (self'\<lparr>virtual_tax_events := virtual_tax_events self' @ [tx]\<rparr>))
               else Inr self'))"

section \<open>The taxation of a book\<close>

text \<open>
  Modelled from the spec: \<^verbatim>\<open>misc.group_by\<close> is not among the sources. It partitions a
  list by a key; the groups come in the order in which their keys first occur (the
  insertion order of the dictionary), each with its elements in the order of the list.
\<close>

fun group_by :: "('a \<Rightarrow> 'k) \<Rightarrow> 'a list \<Rightarrow> ('k \<times> 'a list) list" where
  "group_by key [] = []"
| "group_by key (x # xs) =
     (key x, x # filter (\<lambda>y. key y = key x) xs)
       # group_by key (filter (\<lambda>y. key y \<noteq> key x) xs)"

text \<open>
  Modelled from the spec: \<^verbatim>\<open>tr.sort_operations(coin_operations, ["utc_time"])\<close> is not
  among the sources. It puts the operations, whose times are times of the ledger, in
  ascending time order, keeping the order of operations of the same time.
\<close>

definition sort_operations :: "operation list \<Rightarrow> operation list" where
  "sort_operations ops = sort_key (\<lambda>op. stamp (utc_time op)) ops"

fun per_coin_loop ::
  "config \<Rightarrow> collaborators \<Rightarrow> (string \<times> operation list) list \<Rightarrow> taxman
   \<Rightarrow> error \<times> taxman + taxman" where
  "per_coin_loop cfg ext [] self = Inr self"
| "per_coin_loop cfg ext ((coin', coin_operations) # groups) self =
     (case evaluate_taxation_GERMANY cfg ext coin' (sort_operations coin_operations) self of
        Inl x \<Rightarrow> Inl x
      | Inr self' \<Rightarrow> per_coin_loop cfg ext groups self')"

definition evaluate_taxation_per_coin ::
  "config \<Rightarrow> collaborators \<Rightarrow> operation list \<Rightarrow> taxman \<Rightarrow> error \<times> taxman + taxman" where
  "evaluate_taxation_per_coin cfg ext operations self =
     per_coin_loop cfg ext (group_by coin operations) self"

fun per_platform_loop ::
  "config \<Rightarrow> collaborators \<Rightarrow> (string \<times> operation list) list \<Rightarrow> taxman
   \<Rightarrow> error \<times> taxman + taxman" where
  "per_platform_loop cfg ext [] self = Inr self"
| "per_platform_loop cfg ext ((p, operations) # groups) self =
     (case evaluate_taxation_per_coin cfg ext operations self of
        Inl x \<Rightarrow> Inl x
      | Inr self' \<Rightarrow> per_platform_loop cfg ext groups self')"

text \<open>
  \<^verbatim>\<open>Taxman.evaluate_taxation\<close> on the operations of the book. The assertion comes
  first.
\<close>

definition evaluate_taxation ::
  "config \<Rightarrow> collaborators \<Rightarrow> operation list \<Rightarrow> taxman \<Rightarrow> error \<times> taxman + taxman" where
  "evaluate_taxation cfg ext book_operations self =
     (if \<not> list_all (\<lambda>op. year (utc_time op) \<le> TAX_YEAR cfg) book_operations
      then Inl (AssertionError_after_tax_year, self)
      else if MULTI_DEPOT cfg then
        per_platform_loop cfg ext (group_by platform book_operations) self
      else evaluate_taxation_per_coin cfg ext book_operations self)"

section \<open>The vocabulary of the properties\<close>

text \<open>
  The gain of one sold coin of a sell \<open>op\<close> (of a change that is not zero), as the loop
  of \<^verbatim>\<open>evaluate_sell\<close> computes it, and the sum of a list of gains as the loop adds them
  up, from zero and in their order. The taxability test in the words of the
  specification: a lot is taxable unless its holding period exceeds the threshold, or it
  comes from an airdrop, lending or staking interest or a commission in a coin that is
  not the home fiat currency. The sold coins whose times can be compared with the time
  of the sell.
\<close>

definition gain :: "collaborators \<Rightarrow> operation \<Rightarrow> sold_coin \<Rightarrow> rat" where
  "gain ext op sc =
     dec_sub (dec_mul (decimal_round (sold sc / change op)) (get_cost ext op))
       (get_cost_sc ext sc)"

definition decimal_sum :: "rat list \<Rightarrow> rat" where
  "decimal_sum gs = foldl dec_add 0 gs"

definition income_origin :: "operation \<Rightarrow> bool" where
  "income_origin op =
     (kind op = Airdrop \<or> kind op = CoinLendInterest \<or> kind op = StakingInterest
      \<or> kind op = Commission)"

definition taxable_lot :: "config \<Rightarrow> operation \<Rightarrow> sold_coin \<Rightarrow> bool" where
  "taxable_lot cfg op sc =
     (\<not> (IS_LONG_TERM cfg (stamp (utc_time (sc_op sc))) (stamp (utc_time op))
         \<or> (income_origin (sc_op sc) \<and> coin (sc_op sc) \<noteq> FIAT cfg)))"

definition comparable_lots :: "operation \<Rightarrow> sold_coin list \<Rightarrow> bool" where
  "comparable_lots op sold_coins =
     list_all (\<lambda>sc. comparable (utc_time (sc_op sc)) (utc_time op)) sold_coins"

text \<open>
  The lists of two taxmen, one after the other; the taxman an evaluation ends with,
  raised or not; queues whose lots all have something left; and the event lists in which
  every capital income event that was not there before comes from lending interest on a
  fiat coin in the tax year.
\<close>

definition tm_append :: "taxman \<Rightarrow> taxman \<Rightarrow> taxman" where
  "tm_append a b =
     \<lparr>tax_events = tax_events a @ tax_events b,
      virtual_tax_events = virtual_tax_events a @ virtual_tax_events b,
      warnings = warnings a @ warnings b\<rparr>"

definition final_taxman :: "error \<times> taxman + taxman \<Rightarrow> taxman" where
  "final_taxman r = (case r of Inl (e, s) \<Rightarrow> s | Inr s \<Rightarrow> s)"

definition positive_lots :: "balance_queue \<Rightarrow> bool" where
  "positive_lots q = list_all (\<lambda>l. 0 < remaining_amount l) q"

definition capital_income_justified ::
  "config \<Rightarrow> collaborators \<Rightarrow> string \<Rightarrow> operation list \<Rightarrow> taxman \<Rightarrow> taxman \<Rightarrow> bool" where
  "capital_income_justified cfg ext coin' operations self0 self =
     (\<forall>tx \<in> set (tax_events self) \<union> set (virtual_tax_events self).
        taxation_type tx = Einkuenfte_aus_Kapitalvermoegen \<longrightarrow>
          tx \<in> set (tax_events self0) \<union> set (virtual_tax_events self0)
          \<or> (kind (tx_op tx) = CoinLendInterest \<and> is_fiat ext coin'
              \<and> in_tax_year cfg (tx_op tx) \<and> tx_op tx \<in> set operations))"

section \<open>Example ledgers\<close>

text \<open>
  A configuration for the tax year 2021 with the euro as home fiat currency and a holding
  period of one year, a price of 100 EUR for a coin before June 2021 and of 150 EUR from
  then on, and some operations on one platform, at timezone-aware times; \<open>naive\<close> is an
  operation at the same field values without a time zone.
\<close>

definition is_long_term_one_year :: "timestamp \<Rightarrow> timestamp \<Rightarrow> bool" where
  "is_long_term_one_year buy sell = ((fst buy + 1, snd buy) < sell)"

definition price :: "string \<Rightarrow> timestamp \<Rightarrow> rat" where
  "price c t = (if c = ''EUR'' then 1 else if t < (2021, 6, 1, 0, 0, 0, 0) then 100 else 150)"

definition ext_2021 :: collaborators where
  "ext_2021 =
     \<lparr>get_cost = (\<lambda>op. price (coin op) (stamp (utc_time op)) * change op),
      get_cost_sc =
        (\<lambda>sc. price (coin (sc_op sc)) (stamp (utc_time (sc_op sc))) * sold sc),
      is_fiat = (\<lambda>c. c = ''EUR'' \<or> c = ''USD''),
      now = (2022, 3, 1, 12, 0, 0, 0)\<rparr>"

definition cfg_2021 :: "bool \<Rightarrow> config" where
  "cfg_2021 unrealized =
     \<lparr>TAX_YEAR = 2021, FIAT = ''EUR'', PRINCIPLE = FIFO, MULTI_DEPOT = False,
      CALCULATE_UNREALIZED_GAINS = unrealized, IS_LONG_TERM = is_long_term_one_year\<rparr>"

definition mk_op :: "op_kind \<Rightarrow> timestamp \<Rightarrow> string \<Rightarrow> rat \<Rightarrow> operation" where
  "mk_op k t c amount =
     \<lparr>kind = k, utc_time = \<lparr>stamp = t, tzinfo = Some UTC\<rparr>, platform = ''kraken'',
      change = amount, coin = c, line = [1], file_path = ''kraken.csv''\<rparr>"

definition naive :: "operation \<Rightarrow> operation" where
  "naive op = op\<lparr>utc_time := \<lparr>stamp = stamp (utc_time op), tzinfo = None\<rparr>\<rparr>"

definition buy_2019 :: operation where
  "buy_2019 = mk_op Buy (2019, 3, 1, 12, 0, 0, 0) ''BTC'' 1"

definition buy_jan :: operation where
  "buy_jan = mk_op Buy (2021, 1, 10, 12, 0, 0, 0) ''BTC'' 1"

definition sell_jul :: "rat \<Rightarrow> operation" where
  "sell_jul amount = mk_op Sell (2021, 7, 10, 12, 0, 0, 0) ''BTC'' amount"

definition deposit_eur :: operation where
  "deposit_eur = mk_op Deposit (2021, 1, 5, 12, 0, 0, 0) ''EUR'' 100"

definition commission_feb :: operation where
  "commission_feb = mk_op Commission (2021, 2, 1, 12, 0, 0, 0) ''BTC'' 1"

definition staking_eur :: operation where
  "staking_eur = mk_op StakingInterest (2021, 3, 1, 12, 0, 0, 0) ''EUR'' 5"

definition lending_eur :: operation where
  "lending_eur = mk_op CoinLendInterest (2021, 3, 1, 12, 0, 0, 0) ''EUR'' 5"

definition fee_btc :: operation where
  "fee_btc = mk_op Fee (2021, 4, 1, 12, 0, 0, 0) ''BTC'' (1 / 100)"

definition deposit_btc :: operation where
  "deposit_btc = mk_op Deposit (2021, 5, 1, 12, 0, 0, 0) ''BTC'' 1"

definition buy_2022 :: operation where
  "buy_2022 = mk_op Buy (2022, 1, 2, 12, 0, 0, 0) ''BTC'' 1"

definition buy_two_jan :: operation where
  "buy_two_jan = mk_op Buy (2021, 1, 10, 12, 0, 0, 0) ''BTC'' 2"

definition sell_eur :: "rat \<Rightarrow> operation" where
  "sell_eur amount = mk_op Sell (2021, 8, 1, 12, 0, 0, 0) ''EUR'' amount"

text \<open>
  The constructor \<^verbatim>\<open>SoldCoin(op, sold)\<close>, and the tax event of a sell with its taxed
  gain, sell value, real gain and the sold coins of its remark.
\<close>

definition SoldCoin ::"operation \<Rightarrow> rat \<Rightarrow> sold_coin" where
  "SoldCoin op amount = \<lparr>sc_op = op, sold = amount\<rparr>"

definition sell_event ::
  "operation \<Rightarrow> rat \<Rightarrow> rat \<Rightarrow> rat \<Rightarrow> sold_coin list \<Rightarrow> tax_event" where
  "sell_event op tg sv rg sold_coins =
     \<lparr>taxation_type = Sonstige_Einkuenfte, taxed_gain = tg, tx_op = op, sell_value = sv,
      real_gain = rg,
      remark = map (\<lambda>s. (sold s, utc_time (sc_op s), kind (sc_op s))) sold_coins\<rparr>"

section \<open>Evaluating the examples\<close>

lemmas example_defs =
  is_long_term_one_year_def price_def ext_2021_def cfg_2021_def mk_op_def naive_def
  buy_2019_def buy_jan_def sell_jul_def deposit_eur_def commission_feb_def
  staking_eur_def lending_eur_def fee_btc_def deposit_btc_def buy_2022_def
  buy_two_jan_def sell_eur_def SoldCoin_def sell_event_def

lemmas model_defs =
  year_def comparable_def TAX_DEADLINE_def in_tax_year_def is_long_term_def not_sold_def new_lot_def balance_add_def
  eligible_def balance_remove_def balance_sanity_check_def is_taxable_def evaluate_sell_def
  Taxman_init_def TaxEvent_def append_tax_event_def log_warning_def interest_branch_def
  process_op_def
  virtual_sell_def evaluate_taxation_GERMANY_def sort_operations_def
  evaluate_taxation_per_coin_def evaluate_taxation_def

lemmas spec_defs =
  gain_def decimal_sum_def income_origin_def taxable_lot_def comparable_lots_def
  tm_append_def final_taxman_def
  positive_lots_def capital_income_justified_def

section \<open>Rounding is exact on short values, monotone and idempotent\<close>

lemma digits_pos: "0 < digits n"
  by (simp add: digits.simps[of n])

lemma digits_bounds: "0 < n \<Longrightarrow> 10 ^ (digits n - 1) \<le> n \<and> n < 10 ^ digits n"
proof (induction n rule: digits.induct)
  case (1 n)
  show ?case
  proof (cases "n < 10")
    case True
    with "1.prems" show ?thesis by (simp add: digits.simps[of n])
  next
    case False
    then have pos: "0 < n div 10" by simp
    from "1.IH"[OF False pos]
    have lo: "10 ^ (digits (n div 10) - 1) \<le> n div 10" and hi: "n div 10 < 10 ^ digits (n div 10)"
      by simp_all
    have d: "digits n = Suc (digits (n div 10))"
      using False by (simp add: digits.simps[of n])
    have "10 * 10 ^ (digits (n div 10) - 1) \<le> 10 * (n div 10)" using lo by simp
    also have "\<dots> \<le> n" by simp
    finally have 1: "10 ^ (digits n - 1) \<le> n"
      using power_minus_mult[OF digits_pos, of "10 :: int" "n div 10"] by (simp add: d mult.commute)
    have "n div 10 + 1 \<le> 10 ^ digits (n div 10)" using hi by simp
    then have "10 * (n div 10 + 1) \<le> 10 * 10 ^ digits (n div 10)" by simp
    moreover have "n < 10 * (n div 10 + 1)" by simp
    ultimately have 2: "n < 10 ^ digits n" by (simp add: d)
    from 1 2 show ?thesis by simp
  qed
qed

lemma adjusted_bounds:
  assumes "x \<noteq> 0"
  shows "10 powi adjusted x \<le> \<bar>x\<bar> \<and> \<bar>x\<bar> < 10 powi (adjusted x + 1)"
proof -
  obtain n d where q: "quotient_of \<bar>x\<bar> = (n, d)" by (cases "quotient_of \<bar>x\<bar>")
  then have d: "0 < d" and x: "\<bar>x\<bar> = of_int n / of_int d"
    using quotient_of_denom_pos quotient_of_div by blast+
  have n: "0 < n" using assms x d
    by (metis abs_ge_zero less_eq_rat_def of_int_0_less_iff zero_less_divide_iff abs_eq_0_iff
        divide_eq_0_iff of_int_eq_0_iff not_less_iff_gr_or_eq)
  define a b where "a = digits n" and "b = digits d"
  define k where "k = int a - int b"
  have nb: "10 ^ (a - 1) \<le> n" "n < 10 ^ a" and db: "10 ^ (b - 1) \<le> d" "d < 10 ^ b"
    using digits_bounds[OF n] digits_bounds[OF d] by (simp_all add: a_def b_def)
  have a: "0 < a" and b: "0 < b" by (simp_all add: a_def b_def digits_pos)
  have hi: "\<bar>x\<bar> < 10 powi (k + 1)"
  proof -
    have "(of_int n :: rat) < 10 ^ a" using nb(2) by (metis of_int_less_iff of_int_numeral of_int_power)
    moreover have "(10 :: rat) ^ (b - 1) \<le> of_int d" using db(1)
      by (metis of_int_le_iff of_int_numeral of_int_power)
    ultimately have "of_int n / of_int d < (10 :: rat) ^ a / 10 ^ (b - 1)"
      using d n by (intro frac_less) auto
    also have "\<dots> = 10 powi int a / 10 powi int (b - 1)"
      by (simp only: power_int_of_nat)
    also have "\<dots> = 10 powi (int a - int (b - 1))"
      by (simp add: power_int_diff)
    also have "int a - int (b - 1) = k + 1"
      using b by (simp add: k_def of_nat_diff)
    finally show ?thesis by (simp add: x)
  qed
  have lo: "10 powi (k - 1) \<le> \<bar>x\<bar>"
  proof -
    have "(of_int d :: rat) \<le> 10 ^ b" using db(2)
      by (metis less_imp_le of_int_le_iff of_int_numeral of_int_power)
    moreover have "(10 :: rat) ^ (a - 1) \<le> of_int n" using nb(1)
      by (metis of_int_le_iff of_int_numeral of_int_power)
    ultimately have "(10 :: rat) ^ (a - 1) / 10 ^ b \<le> of_int n / of_int d"
      using d n by (intro frac_le) auto
    moreover have "(10 :: rat) ^ (a - 1) / 10 ^ b = 10 powi int (a - 1) / 10 powi int b"
      by (simp only: power_int_of_nat)
    moreover have "\<dots> = 10 powi (int (a - 1) - int b)"
      by (simp add: power_int_diff)
    moreover have "int (a - 1) - int b = k - 1"
      using a by (simp add: k_def of_nat_diff)
    ultimately show ?thesis by (simp add: x)
  qed
  have adj: "adjusted x = (if 10 powi k \<le> \<bar>x\<bar> then k else k - 1)"
    by (simp add: adjusted_def q k_def a_def b_def)
  show ?thesis
    using hi lo by (auto simp: adj)
qed

lemma pow10_less_imp: "(10 :: rat) powi a < 10 powi b \<Longrightarrow> a < b"
  using power_int_increasing[of b a "10 :: rat"] by (cases "a < b") auto

lemma adjusted_unique:
  assumes "10 powi e \<le> \<bar>x\<bar>" and "\<bar>x\<bar> < 10 powi (e + 1)"
  shows "adjusted x = e"
proof -
  have "(0 :: rat) < 10 powi e" by simp
  with assms(1) have "0 < \<bar>x\<bar>" by linarith
  then have "x \<noteq> 0" by simp
  note b = adjusted_bounds[OF this]
  have "10 powi adjusted x < (10 :: rat) powi (e + 1)" using b assms by linarith
  then have 1: "adjusted x < e + 1" by (rule pow10_less_imp)
  have "10 powi e < (10 :: rat) powi (adjusted x + 1)" using b assms by linarith
  then have "e < adjusted x + 1" by (rule pow10_less_imp)
  with 1 show ?thesis by simp
qed

lemma adjusted_minus: "adjusted (- x) = adjusted x"
  by (simp add: adjusted_def)

lemma round_half_even_cases:
  "round_half_even q = \<lfloor>q\<rfloor> \<or> round_half_even q = \<lfloor>q\<rfloor> + 1"
  by (simp add: round_half_even_def Let_def)

lemma round_half_even_of_int: "round_half_even (of_int m) = m"
  by (simp add: round_half_even_def)

lemma round_half_even_mono:
  assumes "q \<le> q'"
  shows "round_half_even q \<le> round_half_even q'"
proof (cases "\<lfloor>q\<rfloor> = \<lfloor>q'\<rfloor>")
  case True
  with assms show ?thesis by (auto simp: round_half_even_def Let_def)
next
  case False
  with assms have "\<lfloor>q\<rfloor> + 1 \<le> \<lfloor>q'\<rfloor>"
    using floor_mono[OF assms] by linarith
  then show ?thesis
    using round_half_even_cases[of q] round_half_even_cases[of q'] by linarith
qed

lemma round_half_even_minus: "round_half_even (- q) = - round_half_even q"
proof (cases "q = of_int \<lfloor>q\<rfloor>")
  case True
  then obtain m where "q = of_int m" ..
  then show ?thesis
    by (simp add: round_half_even_of_int flip: of_int_minus)
next
  case False
  then have f: "\<lfloor>- q\<rfloor> = - \<lfloor>q\<rfloor> - 1"
    using ceiling_altdef[of q] by (simp add: ceiling_def)
  show ?thesis
    unfolding round_half_even_def Let_def f
    by (auto simp: algebra_simps)
qed

lemma decimal_round_minus: "decimal_round (- x) = - decimal_round x"
  by (simp add: decimal_round_def adjusted_minus round_half_even_minus)

lemma decimal_round_exact:
  assumes x: "x = of_int m * 10 powi k" and m: "\<bar>m\<bar> < 10 ^ 28"
  shows "decimal_round x = x"
proof (cases "m = 0")
  case True
  with x show ?thesis by (simp add: decimal_round_def)
next
  case False
  have p: "(0 :: rat) < 10 powi k" by simp
  have x0: "x \<noteq> 0" using False x p by auto
  define e where "e = adjusted x"
  define j where "j = k - (e - 27)"
  have ax: "\<bar>x\<bar> = of_int \<bar>m\<bar> * 10 powi k"
    using p by (simp add: x abs_mult)
  have "(of_int \<bar>m\<bar> :: rat) < 10 ^ 28"
    using m by (metis of_int_less_iff of_int_numeral of_int_power)
  then have "\<bar>x\<bar> < 10 ^ 28 * 10 powi k"
    using p by (simp add: ax)
  also have "\<dots> = 10 powi (k + 28)"
    by (simp add: power_int_add)
  finally have "10 powi e < (10 :: rat) powi (k + 28)"
    using adjusted_bounds[OF x0] by (simp add: e_def)
  then have "e < k + 28" by (rule pow10_less_imp)
  then have j: "0 \<le> j" by (simp add: j_def)
  have "x / 10 powi (e - 27) = of_int m * 10 powi j"
    by (simp add: x j_def power_int_diff)
  also have "\<dots> = of_int (m * 10 ^ nat j)"
    using j by (simp add: power_int_def)
  finally have "round_half_even (x / 10 powi (e - 27)) = m * 10 ^ nat j"
    by (simp only: round_half_even_of_int)
  then have "decimal_round x = of_int (m * 10 ^ nat j) * 10 powi (e - 27)"
    using x0 by (simp add: decimal_round_def e_def)
  also have "\<dots> = of_int m * (10 powi j * 10 powi (e - 27))"
    using j by (simp add: power_int_def)
  also have "10 powi j * 10 powi (e - 27) = (10 :: rat) powi k"
    by (simp add: j_def flip: power_int_add)
  finally show ?thesis by (simp add: x)
qed

lemma decimal_round_pos_bounds:
  assumes "0 < x"
  shows "10 powi adjusted x \<le> decimal_round x \<and> decimal_round x \<le> 10 powi (adjusted x + 1)"
proof -
  define e where "e = adjusted x"
  define s :: rat where "s = 10 powi (e - 27)"
  have s: "0 < s" by (simp add: s_def)
  have b: "10 powi e \<le> x" "x < 10 powi (e + 1)"
    using adjusted_bounds[of x] assms by (simp_all add: e_def)
  have es: "10 powi e = 10 ^ 27 * s" "10 powi (e + 1) = 10 ^ 28 * s"
    using power_int_add[of "10 :: rat" 27 "e - 27"] power_int_add[of "10 :: rat" 28 "e - 27"]
    by (simp_all add: s_def add.commute)
  have "(10 :: rat) ^ 27 \<le> x / s"
    using b(1) s unfolding es by (simp only: pos_le_divide_eq)
  then have lo: "of_int (10 ^ 27) \<le> x / s" by simp
  have "x / s \<le> (10 :: rat) ^ 28"
    using b(2) s unfolding es by (simp only: pos_divide_le_eq less_imp_le)
  then have hi: "x / s \<le> of_int (10 ^ 28)" by simp
  have r: "10 ^ 27 \<le> round_half_even (x / s)" "round_half_even (x / s) \<le> 10 ^ 28"
    using round_half_even_mono[OF lo] round_half_even_mono[OF hi]
    by (simp_all only: round_half_even_of_int)
  have dr: "decimal_round x = of_int (round_half_even (x / s)) * s"
    using assms by (simp add: decimal_round_def e_def s_def)
  have "10 powi e = of_int (10 ^ 27) * s"
    using es(1) by simp
  also have "\<dots> \<le> of_int (round_half_even (x / s)) * s"
    using r(1) s by (intro mult_right_mono) (simp_all only: of_int_le_iff less_imp_le)
  finally have 1: "10 powi e \<le> decimal_round x" by (simp add: dr)
  have "of_int (round_half_even (x / s)) * s \<le> of_int (10 ^ 28) * s"
    using r(2) s by (intro mult_right_mono) (simp_all only: of_int_le_iff less_imp_le)
  also have "\<dots> = 10 powi (e + 1)"
    using es(2) by simp
  finally have 2: "decimal_round x \<le> 10 powi (e + 1)" by (simp add: dr)
  from 1 2 show ?thesis by (simp add: e_def)
qed

lemma decimal_round_pos: "0 < x \<Longrightarrow> 0 < decimal_round x"
  using decimal_round_pos_bounds[of x] zero_less_power_int[of "10 :: rat" "adjusted x"]
  by linarith

lemma decimal_round_neg: "x < 0 \<Longrightarrow> decimal_round x < 0"
  using decimal_round_pos[of "- x"] by (simp add: decimal_round_minus)

lemma decimal_round_mono_pos:
  assumes "0 < x" and "x \<le> y"
  shows "decimal_round x \<le> decimal_round y"
proof -
  have y: "0 < y" using assms by simp
  note bx = adjusted_bounds[of x] and b2 = adjusted_bounds[of y]
  have "10 powi adjusted x < (10 :: rat) powi (adjusted y + 1)"
    using bx b2 assms y by simp
  then have le: "adjusted x \<le> adjusted y"
    using pow10_less_imp by fastforce
  show ?thesis
  proof (cases "adjusted x = adjusted y")
    case True
    define s :: rat where "s = 10 powi (adjusted y - 27)"
    have s: "0 < s" by (simp add: s_def)
    have "x / s \<le> y / s" using assms(2) s by (simp add: divide_right_mono)
    then have "round_half_even (x / s) \<le> round_half_even (y / s)"
      by (rule round_half_even_mono)
    then have "of_int (round_half_even (x / s)) * s \<le> of_int (round_half_even (y / s)) * s"
      using s by (intro mult_right_mono) (simp_all only: of_int_le_iff less_imp_le)
    then show ?thesis
      using assms(1) y True by (simp add: decimal_round_def s_def)
  next
    case False
    with le have "adjusted x + 1 \<le> adjusted y" by simp
    then have "(10 :: rat) powi (adjusted x + 1) \<le> 10 powi adjusted y"
      by (intro power_int_increasing) simp_all
    then show ?thesis
      using decimal_round_pos_bounds[OF assms(1)] decimal_round_pos_bounds[OF y] by linarith
  qed
qed

lemma decimal_round_zero [simp]: "decimal_round 0 = 0"
  by (simp add: decimal_round_def)

lemma decimal_round_mono:
  assumes "x \<le> y"
  shows "decimal_round x \<le> decimal_round y"
proof -
  consider "0 < x" | "x = 0" "y = 0" | "x = 0" "0 < y" | "x < 0" "0 \<le> y" | "x < 0" "y < 0"
    using assms by linarith
  then show ?thesis
  proof cases
    case 1
    then show ?thesis using assms by (rule decimal_round_mono_pos)
  next
    case 2
    then show ?thesis by simp
  next
    case 3
    then show ?thesis using decimal_round_pos[of y] by simp
  next
    case 4
    have "0 \<le> decimal_round y"
      using 4(2) decimal_round_pos[of y] by (cases "y = 0") auto
    with decimal_round_neg[OF 4(1)] show ?thesis by simp
  next
    case 5
    then have "decimal_round (- y) \<le> decimal_round (- x)"
      using assms by (intro decimal_round_mono_pos) simp_all
    then show ?thesis by (simp add: decimal_round_minus)
  qed
qed

lemma decimal_round_idem: "decimal_round (decimal_round x) = decimal_round x"
proof -
  have pos: "decimal_round (decimal_round x) = decimal_round x" if x: "0 < x" for x
  proof -
    define e where "e = adjusted x"
    define s :: rat where "s = 10 powi (e - 27)"
    define m where "m = round_half_even (x / s)"
    have dr: "decimal_round x = of_int m * 10 powi (e - 27)"
      using x by (simp add: decimal_round_def e_def s_def m_def)
    have es: "10 powi (e + 1) = 10 ^ 28 * s"
      using power_int_add[of "10 :: rat" 28 "e - 27"] by (simp add: s_def add.commute)
    have b: "0 < decimal_round x" "decimal_round x \<le> 10 powi (e + 1)"
      using decimal_round_pos[OF x] decimal_round_pos_bounds[OF x] by (simp_all add: e_def)
    have s: "0 < s" by (simp add: s_def)
    have "of_int m * s \<le> 10 ^ 28 * s" "0 < of_int m * s"
      using b by (simp_all add: dr es s_def)
    then have m: "m \<le> 10 ^ 28" "0 < m"
      using s by (simp_all add: zero_less_mult_iff)
    show ?thesis
    proof (cases "m = 10 ^ 28")
      case True
      then have "decimal_round x = of_int 1 * 10 powi (e + 1)"
        using es by (simp add: dr s_def)
      then show ?thesis
        by (rule decimal_round_exact) simp
    next
      case False
      with m have "\<bar>m\<bar> < 10 ^ 28" by simp
      with dr show ?thesis by (rule decimal_round_exact)
    qed
  qed
  consider "0 < x" | "x = 0" | "x < 0" by linarith
  then show ?thesis
  proof cases
    case 1
    then show ?thesis by (rule pos)
  next
    case 2
    then show ?thesis by simp
  next
    case 3
    then have "decimal_round (decimal_round (- x)) = decimal_round (- x)"
      by (intro pos) simp
    then show ?thesis by (simp add: decimal_round_minus)
  qed
qed

text \<open>
  Two values that need rounding: a third of 400, negated, is cut to 28 digits, and a tie
  in the 29th digit goes to the even digit.
\<close>

lemma decimal_round_examples:
  "decimal_round (- 400 / 3) = - (1333333333333333333333333333 / 10 ^ 25)"
  "decimal_round (12345678901234567890123456785 / 10) = 1234567890123456789012345678"
  "decimal_round (12345678901234567890123456775 / 10) = 1234567890123456789012345678"
  by code_simp+

section \<open>The gains of a sell\<close>

lemma is_taxable_comparable:
  "comparable (utc_time (sc_op sc)) (utc_time op)
   \<Longrightarrow> is_taxable cfg sc op = Inr (taxable_lot cfg op sc)"
  by (auto simp: is_taxable_def is_long_term_def taxable_lot_def income_origin_def)

lemma is_taxable_TypeError:
  "\<not> comparable (utc_time (sc_op sc)) (utc_time op) \<Longrightarrow> is_taxable cfg sc op = Inl TypeError"
  by (simp add: is_taxable_def is_long_term_def)

lemma gains_loop_sums:
  "change op \<noteq> 0 \<Longrightarrow> comparable_lots op scs \<Longrightarrow>
   gains_loop cfg ext op (get_cost ext op) scs (tg, rg) =
     Inr (foldl dec_add tg (map (gain ext op) (filter (taxable_lot cfg op) scs)),
          if CALCULATE_UNREALIZED_GAINS cfg then foldl dec_add rg (map (gain ext op) scs)
          else rg)"
  by (induction scs arbitrary: tg rg)
     (auto simp: gain_def comparable_lots_def is_taxable_comparable dec_div_def Let_def)

lemma gains_loop_TypeError:
  "change op \<noteq> 0 \<Longrightarrow> \<not> comparable_lots op scs \<Longrightarrow>
   gains_loop cfg ext op sv scs (tg, rg) = Inl TypeError"
proof (induction scs arbitrary: tg rg)
  case Nil
  then show ?case by (simp add: comparable_lots_def)
next
  case (Cons sc scs)
  show ?case
  proof (cases "comparable (utc_time (sc_op sc)) (utc_time op)")
    case True
    with Cons.prems have "\<not> comparable_lots op scs" by (simp add: comparable_lots_def)
    with Cons.IH Cons.prems(1) True show ?thesis
      by (simp add: is_taxable_comparable dec_div_def Let_def)
  next
    case False
    then show ?thesis by (simp add: is_taxable_TypeError)
  qed
qed

lemma consume_zero: "snd (consume q 0) = []"
  by (cases q) auto

lemma balance_remove_zero:
  "change op = 0 \<Longrightarrow> balance_remove p q op = Inr (b, scs) \<Longrightarrow> scs = []"
  by (auto simp: balance_remove_def split: if_splits dest: arg_cong[where f=snd] simp: consume_zero)

text \<open>
  What the evaluation of a sell returns, once the removal from the queue has succeeded,
  for a coin that is not the home fiat currency, in the tax year or with force: the tax
  event whose taxed gain is the decimal sum of the gains of the taxable lots, when the
  times of all sold coins can be compared with the time of the sell, and a type error
  otherwise.
\<close>

lemma evaluate_sell_event:
  assumes "balance_remove (PRINCIPLE cfg) balance op = Inr (balance', sold_coins)"
    and "coin' \<noteq> FIAT cfg" and "in_tax_year cfg op \<or> force"
  shows "evaluate_sell cfg ext coin' balance op force =
     (if comparable_lots op sold_coins then
        Inr (balance',
             Some \<lparr>taxation_type = Sonstige_Einkuenfte,
                   taxed_gain =
                     decimal_sum (map (gain ext op) (filter (taxable_lot cfg op) sold_coins)),
                   tx_op = op,
                   sell_value = get_cost ext op,
                   real_gain = (if CALCULATE_UNREALIZED_GAINS cfg
                                then decimal_sum (map (gain ext op) sold_coins) else 0),
                   remark = map (\<lambda>sc. (sold sc, utc_time (sc_op sc), kind (sc_op sc)))
                              sold_coins\<rparr>)
      else Inl TypeError)"
proof (cases "change op = 0")
  case True
  then have "sold_coins = []" using assms(1) by (rule balance_remove_zero)
  with assms show ?thesis
    by (auto simp: evaluate_sell_def comparable_lots_def decimal_sum_def)
next
  case False
  with assms show ?thesis
    by (auto simp: evaluate_sell_def gains_loop_sums gains_loop_TypeError decimal_sum_def)
qed

lemma evaluate_sell_Some:
  assumes "balance_remove (PRINCIPLE cfg) balance op = Inr (balance', sold_coins)"
    and "evaluate_sell cfg ext coin' balance op force = Inr (b, Some tx)"
  shows "coin' \<noteq> FIAT cfg \<and> (in_tax_year cfg op \<or> force) \<and> comparable_lots op sold_coins
         \<and> b = balance'
         \<and> taxed_gain tx =
             decimal_sum (map (gain ext op) (filter (taxable_lot cfg op) sold_coins))
         \<and> real_gain tx = (if CALCULATE_UNREALIZED_GAINS cfg
                           then decimal_sum (map (gain ext op) sold_coins) else 0)"
proof -
  from assms have c: "coin' \<noteq> FIAT cfg" and y: "in_tax_year cfg op \<or> force"
    by (auto simp: evaluate_sell_def split: if_splits)
  from evaluate_sell_event[OF assms(1) c y, of ext] assms(2) c y show ?thesis
    by (auto split: if_splits)
qed

section \<open>The balance queue keeps its balance\<close>

lemma sum_list_insort_key:
  "sum_list (map f (insort_key k x xs)) = f x + sum_list (map f (xs :: 'a list)) "
  for f :: "'a \<Rightarrow> rat"
  by (induction xs) auto

lemma sum_list_sort_key: "sum_list (map f (sort_key k xs)) = sum_list (map f xs)"
  for f :: "'a \<Rightarrow> rat"
  by (induction xs) (auto simp: sum_list_insort_key)

lemma sum_list_eligible: "sum_list (map f (eligible p q)) = sum_list (map f q)"
  for f :: "lot \<Rightarrow> rat"
  by (cases p) (simp_all add: eligible_def sum_list_sort_key rev_map[symmetric] sum_list_rev)

lemma set_eligible: "set (eligible p q) = set q"
  by (cases p) (simp_all add: eligible_def)

lemma consume_sum:
  "list_all (\<lambda>l. 0 \<le> remaining_amount l) q \<Longrightarrow> 0 \<le> needed
   \<Longrightarrow> needed \<le> sum_list (map remaining_amount q)
   \<Longrightarrow> sum_list (map remaining_amount (fst (consume q needed)))
       = sum_list (map remaining_amount q) - needed"
proof (induction q arbitrary: needed)
  case Nil
  then show ?case by simp
next
  case (Cons l ls)
  have nn: "0 \<le> sum_list (map remaining_amount ls)"
    using Cons.prems(1) by (auto intro!: sum_list_nonneg simp: list_all_iff)
  show ?case
  proof (cases "needed \<le> 0")
    case True
    with Cons.prems show ?thesis by simp
  next
    case False
    let ?t = "min (remaining_amount l) needed"
    have "sum_list (map remaining_amount (fst (consume ls (needed - ?t))))
            = sum_list (map remaining_amount ls) - (needed - ?t)"
      using Cons.prems nn by (intro Cons.IH) (auto simp: min_def)
    with False show ?thesis by (auto simp: Let_def min_def)
  qed
qed


lemma positive_lots_nonneg: "positive_lots q \<Longrightarrow> list_all (\<lambda>l. 0 \<le> remaining_amount l) q"
  by (auto simp: positive_lots_def list_all_iff intro: less_imp_le)


lemma balance_remove_not_sold:
  assumes "positive_lots q" and "balance_remove p q op = Inr (q', scs)"
  shows "sum_list (map not_sold q') = sum_list (map not_sold q) - \<bar>change op\<bar>"
proof -
  have ns: "not_sold = remaining_amount" by (rule ext) (simp add: not_sold_def)
  from assms(2) have le: "\<bar>change op\<bar> \<le> sum_list (map remaining_amount q)"
    and q': "q' = fst (consume (eligible p q) \<bar>change op\<bar>)"
    by (auto simp: balance_remove_def ns split: if_splits)
  have "list_all (\<lambda>l. 0 \<le> remaining_amount l) (eligible p q)"
    using positive_lots_nonneg[OF assms(1)] by (simp add: list_all_iff set_eligible)
  then show ?thesis
    using le by (simp add: q' ns consume_sum sum_list_eligible)
qed





lemma positive_lots_sum_nonneg: "positive_lots q \<Longrightarrow> 0 \<le> sum_list (map not_sold q)"
  using positive_lots_nonneg[of q]
  by (auto simp: list_all_iff not_sold_def intro!: sum_list_nonneg)


lemma positive_lots_sum: "positive_lots q \<Longrightarrow> (sum_list (map not_sold q) \<noteq> 0) = (q \<noteq> [])"
proof (cases q)
  case Nil
  then show ?thesis by simp
next
  case (Cons l ls)
  assume p: "positive_lots q"
  then have "positive_lots ls" "0 < not_sold l"
    using Cons by (auto simp: positive_lots_def not_sold_def)
  then show ?thesis using Cons positive_lots_sum_nonneg[of ls] by auto
qed

section \<open>Fatal operations\<close>

lemma process_ops_append:
  "process_ops cfg ext c (pre @ op # post) st =
     (case process_ops cfg ext c pre st of
        Inl x \<Rightarrow> Inl x
      | Inr st1 \<Rightarrow>
          (case process_op cfg ext c op st1 of
             Inl e \<Rightarrow> Inl (e, snd st1)
           | Inr st2 \<Rightarrow> process_ops cfg ext c post st2))"
  by (induction pre arbitrary: st) (auto split: sum.splits)

lemma process_op_fatal:
  "kind op = Fee \<or> kind op = Unknown \<Longrightarrow>
   process_op cfg ext c op st =
     Inl (if kind op = Fee then RuntimeError_single_fee else NotImplementedError)"
  by (auto simp: process_op_def interest_branch_def split: prod.splits)

text \<open>
  C6. A group whose operations contain a fee or an operation of an unrecognized kind
  raises. When the operations before it pass, the error is that of the fee (a runtime
  error) or of the unknown kind (not implemented), and the taxman is the one those
  operations left: neither the operation nor the ones after it add a tax event, and no
  virtual sell is evaluated. When an operation before it raises, that error stands.
\<close>

theorem fee_or_unknown_kind_is_fatal:
  assumes "kind op = Fee \<or> kind op = Unknown"
  shows "(\<exists>e self1. evaluate_taxation_GERMANY cfg ext coin' (pre @ op # post) self
                       = Inl (e, self1))
         \<and> evaluate_taxation_GERMANY cfg ext coin' (pre @ op # post) self =
             (case process_ops cfg ext coin' pre ([], self) of
                Inl x \<Rightarrow> Inl x
              | Inr (balance, self1) \<Rightarrow>
                  Inl (if kind op = Fee then RuntimeError_single_fee
                       else NotImplementedError, self1))"
proof -
  have eq: "evaluate_taxation_GERMANY cfg ext coin' (pre @ op # post) self =
             (case process_ops cfg ext coin' pre ([], self) of
                Inl x \<Rightarrow> Inl x
              | Inr (balance, self1) \<Rightarrow>
                  Inl (if kind op = Fee then RuntimeError_single_fee
                       else NotImplementedError, self1))"
    unfolding evaluate_taxation_GERMANY_def process_ops_append
    by (simp add: process_op_fatal[OF assms] split: sum.splits prod.splits)
  show ?thesis
    unfolding eq by (auto split: sum.splits prod.splits)
qed

theorem fee_or_unknown_kind_is_fatal_witness:
  "kind fee_btc = Fee
   \<and> process_ops (cfg_2021 False) ext_2021 ''BTC'' [commission_feb] ([], Taxman_init)
       = Inr ([new_lot commission_feb],
              \<lparr>tax_events = [TaxEvent Einkuenfte_aus_sonstigen_Leistungen 100 commission_feb],
               virtual_tax_events = [], warnings = []\<rparr>)
   \<and> evaluate_taxation_GERMANY (cfg_2021 False) ext_2021 ''BTC''
         ([commission_feb] @ fee_btc # [sell_jul 1]) Taxman_init
       = Inl (RuntimeError_single_fee,
              \<lparr>tax_events = [TaxEvent Einkuenfte_aus_sonstigen_Leistungen 100 commission_feb],
               virtual_tax_events = [], warnings = []\<rparr>)"
proof -
  have k: "kind fee_btc = Fee \<or> kind fee_btc = Unknown"
    by (simp add: example_defs)
  have p: "process_ops (cfg_2021 False) ext_2021 ''BTC'' [commission_feb] ([], Taxman_init)
       = Inr ([new_lot commission_feb],
              \<lparr>tax_events = [TaxEvent Einkuenfte_aus_sonstigen_Leistungen 100 commission_feb],
               virtual_tax_events = [], warnings = []\<rparr>)"
    by (simp add: example_defs model_defs)
  have f: "kind fee_btc = Fee"
    by (simp add: example_defs)
  from fee_or_unknown_kind_is_fatal[OF k, of "cfg_2021 False" ext_2021 "''BTC''"
      "[commission_feb]" "[sell_jul 1]" Taxman_init] p f
  show ?thesis by simp
qed

section \<open>Running the evaluation again\<close>

lemma tm_append_fields [simp]:
  "tax_events (tm_append a b) = tax_events a @ tax_events b"
  "virtual_tax_events (tm_append a b) = virtual_tax_events a @ virtual_tax_events b"
  "warnings (tm_append a b) = warnings a @ warnings b"
  by (simp_all add: tm_append_def)

lemma tm_append_updates:
  "append_tax_event (tm_append a s) tx = tm_append a (append_tax_event s tx)"
  "log_warning (tm_append a s) r = tm_append a (log_warning s r)"
  "(tm_append a s)\<lparr>virtual_tax_events := virtual_tax_events a @ virtual_tax_events s @ [tx]\<rparr>
     = tm_append a (s\<lparr>virtual_tax_events := virtual_tax_events s @ [tx]\<rparr>)"
  by (simp_all add: tm_append_def append_tax_event_def log_warning_def)

lemma tm_append_init [simp]: "tm_append s Taxman_init = s"
  by (simp add: tm_append_def Taxman_init_def)

lemma process_op_frame:
  "process_op cfg ext c op (b, tm_append a s) =
     map_sum id (map_prod id (tm_append a)) (process_op cfg ext c op (b, s))"
  by (cases "kind op")
     (auto simp: process_op_def interest_branch_def tm_append_updates
           split: sum.splits prod.splits option.splits)

lemma process_ops_frame:
  "process_ops cfg ext c ops (b, tm_append a s) =
     map_sum (map_prod id (tm_append a)) (map_prod id (tm_append a))
       (process_ops cfg ext c ops (b, s))"
proof (induction ops arbitrary: b s)
  case Nil
  then show ?case by simp
next
  case (Cons op ops)
  show ?case
  proof (cases "process_op cfg ext c op (b, s)")
    case (Inl e)
    then show ?thesis by (simp add: process_op_frame)
  next
    case (Inr st')
    obtain b' s' where st': "st' = (b', s')" by (cases st')
    with Inr show ?thesis by (simp add: process_op_frame Cons.IH)
  qed
qed

lemma evaluate_taxation_GERMANY_frame:
  "evaluate_taxation_GERMANY cfg ext c ops (tm_append a s) =
     map_sum (map_prod id (tm_append a)) (tm_append a)
       (evaluate_taxation_GERMANY cfg ext c ops s)"
  unfolding evaluate_taxation_GERMANY_def process_ops_frame
  by (auto simp: tm_append_updates split: sum.splits prod.splits option.splits)

lemma per_coin_loop_frame:
  "per_coin_loop cfg ext groups (tm_append a s) =
     map_sum (map_prod id (tm_append a)) (tm_append a) (per_coin_loop cfg ext groups s)"
proof (induction groups arbitrary: s)
  case Nil
  then show ?case by simp
next
  case (Cons g groups)
  obtain c ops where g: "g = (c, ops)" by (cases g)
  show ?case
    by (cases "evaluate_taxation_GERMANY cfg ext c (sort_operations ops) s")
       (simp_all add: g evaluate_taxation_GERMANY_frame Cons.IH id_def)
qed

lemma evaluate_taxation_per_coin_frame:
  "evaluate_taxation_per_coin cfg ext ops (tm_append a s) =
     map_sum (map_prod id (tm_append a)) (tm_append a)
       (evaluate_taxation_per_coin cfg ext ops s)"
  by (simp add: evaluate_taxation_per_coin_def per_coin_loop_frame)

lemma per_platform_loop_frame:
  "per_platform_loop cfg ext groups (tm_append a s) =
     map_sum (map_prod id (tm_append a)) (tm_append a) (per_platform_loop cfg ext groups s)"
proof (induction groups arbitrary: s)
  case Nil
  then show ?case by simp
next
  case (Cons g groups)
  obtain p ops where g: "g = (p, ops)" by (cases g)
  show ?case
    by (cases "evaluate_taxation_per_coin cfg ext ops s")
       (simp_all add: g evaluate_taxation_per_coin_frame Cons.IH id_def)
qed

lemma evaluate_taxation_frame:
  "evaluate_taxation cfg ext ops (tm_append a s) =
     map_sum (map_prod id (tm_append a)) (tm_append a) (evaluate_taxation cfg ext ops s)"
  by (simp add: evaluate_taxation_def per_platform_loop_frame evaluate_taxation_per_coin_frame)

text \<open>
  A book of a buy of two coins and a sell of one. With unrealized gains not calculated,
  the first run gives one realized event, and the run on the taxman it leaves gives two.
  With unrealized gains calculated, on a ledger of naive times (where the virtual sell
  can be evaluated), the first run gives one realized and one virtual event, and the
  second run two of each.
\<close>

theorem second_run_doubles_counterexample:
  "evaluate_taxation (cfg_2021 False) ext_2021 [buy_two_jan, sell_jul 1] Taxman_init
     = Inr \<lparr>tax_events = [sell_event (sell_jul 1) 50 150 0 [SoldCoin buy_two_jan 1]],
            virtual_tax_events = [], warnings = []\<rparr>
   \<and> evaluate_taxation (cfg_2021 False) ext_2021 [buy_two_jan, sell_jul 1]
         \<lparr>tax_events = [sell_event (sell_jul 1) 50 150 0 [SoldCoin buy_two_jan 1]],
          virtual_tax_events = [], warnings = []\<rparr>
     = Inr \<lparr>tax_events = [sell_event (sell_jul 1) 50 150 0 [SoldCoin buy_two_jan 1],
                           sell_event (sell_jul 1) 50 150 0 [SoldCoin buy_two_jan 1]],
            virtual_tax_events = [], warnings = []\<rparr>
   \<and> [sell_event (sell_jul 1) 50 150 0 [SoldCoin buy_two_jan 1],
       sell_event (sell_jul 1) 50 150 0 [SoldCoin buy_two_jan 1]]
       \<noteq> [sell_event (sell_jul 1) 50 150 0 [SoldCoin buy_two_jan 1]]
   \<and> evaluate_taxation (cfg_2021 True) ext_2021 [naive buy_two_jan, naive (sell_jul 1)]
         Taxman_init
     = Inr \<lparr>tax_events =
              [sell_event (naive (sell_jul 1)) 50 150 50 [SoldCoin (naive buy_two_jan) 1]],
            virtual_tax_events =
              [sell_event
                 (virtual_sell (cfg_2021 True) ext_2021 ''BTC''
                    [naive buy_two_jan, naive (sell_jul 1)] 1)
                 50 150 50 [SoldCoin (naive buy_two_jan) 1]],
            warnings = []\<rparr>
   \<and> evaluate_taxation (cfg_2021 True) ext_2021 [naive buy_two_jan, naive (sell_jul 1)]
         \<lparr>tax_events =
            [sell_event (naive (sell_jul 1)) 50 150 50 [SoldCoin (naive buy_two_jan) 1]],
          virtual_tax_events =
            [sell_event
               (virtual_sell (cfg_2021 True) ext_2021 ''BTC''
                  [naive buy_two_jan, naive (sell_jul 1)] 1)
               50 150 50 [SoldCoin (naive buy_two_jan) 1]],
          warnings = []\<rparr>
     = Inr \<lparr>tax_events =
              [sell_event (naive (sell_jul 1)) 50 150 50 [SoldCoin (naive buy_two_jan) 1],
               sell_event (naive (sell_jul 1)) 50 150 50 [SoldCoin (naive buy_two_jan) 1]],
            virtual_tax_events =
              [sell_event
                 (virtual_sell (cfg_2021 True) ext_2021 ''BTC''
                    [naive buy_two_jan, naive (sell_jul 1)] 1)
                 50 150 50 [SoldCoin (naive buy_two_jan) 1],
               sell_event
                 (virtual_sell (cfg_2021 True) ext_2021 ''BTC''
                    [naive buy_two_jan, naive (sell_jul 1)] 1)
                 50 150 50 [SoldCoin (naive buy_two_jan) 1]],
            warnings = []\<rparr>"
  by code_simp

text \<open>
  C4, as amended. The evaluation is a function of the ledger, the configuration and the
  taxman it starts from, and it never resets the lists: when the run on a fresh taxman
  ends with the taxman \<open>self1\<close>, the run on \<open>self1\<close> with the same ledger and configuration
  ends with every list of \<open>self1\<close> followed by itself.
\<close>

theorem second_run_appends_again:
  assumes "evaluate_taxation cfg ext book_operations Taxman_init = Inr self1"
  shows "evaluate_taxation cfg ext book_operations self1 = Inr (tm_append self1 self1)"
  using evaluate_taxation_frame[of cfg ext book_operations self1 Taxman_init] assms
  by simp

theorem second_run_appends_again_witness:
  "evaluate_taxation (cfg_2021 False) ext_2021 [commission_feb] Taxman_init
     = Inr \<lparr>tax_events = [TaxEvent Einkuenfte_aus_sonstigen_Leistungen 100 commission_feb],
            virtual_tax_events = [], warnings = []\<rparr>
   \<and> evaluate_taxation (cfg_2021 False) ext_2021 [commission_feb]
         \<lparr>tax_events = [TaxEvent Einkuenfte_aus_sonstigen_Leistungen 100 commission_feb],
          virtual_tax_events = [], warnings = []\<rparr>
     = Inr \<lparr>tax_events = [TaxEvent Einkuenfte_aus_sonstigen_Leistungen 100 commission_feb,
                           TaxEvent Einkuenfte_aus_sonstigen_Leistungen 100 commission_feb],
            virtual_tax_events = [], warnings = []\<rparr>"
proof -
  have h: "evaluate_taxation (cfg_2021 False) ext_2021 [commission_feb] Taxman_init
     = Inr \<lparr>tax_events = [TaxEvent Einkuenfte_aus_sonstigen_Leistungen 100 commission_feb],
            virtual_tax_events = [], warnings = []\<rparr>"
    by (simp add: example_defs model_defs)
  from second_run_appends_again[OF h] h
  show ?thesis by (simp add: tm_append_def)
qed

section \<open>The forced sell of the coins left\<close>

text \<open>
  C1. The gain of a consumed lot is added to the taxed gain exactly when the lot is
  taxable, for a sell in the tax year and for a forced sell. The loop does so where it
  can compare the times (lemma \<open>evaluate_sell_event\<close>). The forced sell is the virtual
  sell, at the naive \<^verbatim>\<open>TAX_DEADLINE\<close>: on a ledger of timezone-aware times the
  taxability test raises a type error, and the gain of a taxable lot is added to no taxed
  gain. Here a coin bought in January 2021 is left in the queue, unrealized gains are
  calculated, and the lot is taxable: it is a buy held for less than a year.
\<close>

theorem forced_sell_of_aware_lot_raises:
  "process_ops (cfg_2021 True) ext_2021 ''BTC'' [buy_jan] ([], Taxman_init)
     = Inr ([new_lot buy_jan], Taxman_init)
   \<and> sum_list (map not_sold [new_lot buy_jan]) = 1
   \<and> balance_remove (PRINCIPLE (cfg_2021 True)) [new_lot buy_jan]
         (virtual_sell (cfg_2021 True) ext_2021 ''BTC'' [buy_jan] 1)
       = Inr ([], [SoldCoin buy_jan 1])
   \<and> taxable_lot (cfg_2021 True) (virtual_sell (cfg_2021 True) ext_2021 ''BTC'' [buy_jan] 1)
         (SoldCoin buy_jan 1)
   \<and> evaluate_sell (cfg_2021 True) ext_2021 ''BTC'' [new_lot buy_jan]
         (virtual_sell (cfg_2021 True) ext_2021 ''BTC'' [buy_jan] 1) True
       = Inl TypeError
   \<and> evaluate_taxation_GERMANY (cfg_2021 True) ext_2021 ''BTC'' [buy_jan] Taxman_init
       = Inl (TypeError, Taxman_init)"
  by code_simp

section \<open>Sells, transfers and the tax year\<close>

text \<open>
  A sell in the tax year of one coin bought in 2019, with unrealized gains not
  calculated: the only lot is held for the long term, so nothing is taxable, and yet the
  loop appends a tax event, of taxed gain zero.
\<close>

theorem sell_of_exempt_lot_counterexample:
  "process_op (cfg_2021 False) ext_2021 ''BTC'' (sell_jul 1) ([new_lot buy_2019], Taxman_init)
     = Inr ([], append_tax_event Taxman_init (sell_event (sell_jul 1) 0 150 0 [SoldCoin buy_2019 1]))
   \<and> balance_remove (PRINCIPLE (cfg_2021 False)) [new_lot buy_2019] (sell_jul 1)
       = Inr ([], [SoldCoin buy_2019 1])
   \<and> is_taxable (cfg_2021 False) (SoldCoin buy_2019 1) (sell_jul 1) = Inr False
   \<and> \<not> CALCULATE_UNREALIZED_GAINS (cfg_2021 False)
   \<and> tax_events (append_tax_event Taxman_init (sell_event (sell_jul 1) 0 150 0 [SoldCoin buy_2019 1]))
       = [sell_event (sell_jul 1) 0 150 0 [SoldCoin buy_2019 1]]
   \<and> tax_events Taxman_init = []"
  by code_simp

text \<open>
  C2, as amended. A sell in the loop of a group, whose removal from the queue succeeds,
  emits a realized tax event for the sell exactly when the coin is not the home fiat
  currency and the sell is in the tax year; it does so whether or not a lot is taxable
  and whether or not unrealized gains are calculated, and the loop never forces. (The
  times of a ledger are all timezone-aware: were the time of a lot not comparable with
  that of the sell, the taxability test would raise a type error.)
\<close>

theorem sell_emits_realized_event:
  assumes "kind op = Sell"
    and "balance_remove (PRINCIPLE cfg) balance op = Inr (balance', sold_coins)"
  shows "\<exists>tx. tx_op tx = op \<and> taxation_type tx = Sonstige_Einkuenfte
           \<and> process_op cfg ext coin' op (balance, self) =
               (if coin' \<noteq> FIAT cfg \<and> in_tax_year cfg op then
                  if comparable_lots op sold_coins
                  then Inr (balance', append_tax_event self tx)
                  else Inl TypeError
                else Inr (balance', self))"
proof (cases "coin' \<noteq> FIAT cfg \<and> in_tax_year cfg op")
  case True
  define tx where "tx =
     \<lparr>taxation_type = Sonstige_Einkuenfte,
      taxed_gain = decimal_sum (map (gain ext op) (filter (taxable_lot cfg op) sold_coins)),
      tx_op = op,
      sell_value = get_cost ext op,
      real_gain = (if CALCULATE_UNREALIZED_GAINS cfg
                   then decimal_sum (map (gain ext op) sold_coins) else 0),
      remark = map (\<lambda>sc. (sold sc, utc_time (sc_op sc), kind (sc_op sc))) sold_coins\<rparr>"
  have "evaluate_sell cfg ext coin' balance op False =
          (if comparable_lots op sold_coins then Inr (balance', Some tx) else Inl TypeError)"
    using evaluate_sell_event[OF assms(2), of coin' False ext] True by (simp add: tx_def)
  moreover have "tx_op tx = op" "taxation_type tx = Sonstige_Einkuenfte"
    by (simp_all add: tx_def)
  ultimately show ?thesis
    using True assms(1) by (intro exI[of _ tx]) (simp add: process_op_def)
next
  case False
  have "process_op cfg ext coin' op (balance, self) = Inr (balance', self)"
    using False assms by (auto simp: process_op_def interest_branch_def evaluate_sell_def)
  with False show ?thesis
    by (intro exI[of _ "TaxEvent Sonstige_Einkuenfte 0 op"]) (auto simp: TaxEvent_def)
qed

theorem sell_emits_realized_event_witness:
  "kind (sell_jul 1) = Sell
   \<and> balance_remove (PRINCIPLE (cfg_2021 False)) [new_lot buy_jan] (sell_jul 1)
       = Inr ([], [SoldCoin buy_jan 1])
   \<and> comparable_lots (sell_jul 1) [SoldCoin buy_jan 1]
   \<and> (\<exists>tx. tx_op tx = sell_jul 1 \<and> taxation_type tx = Sonstige_Einkuenfte
          \<and> process_op (cfg_2021 False) ext_2021 ''BTC'' (sell_jul 1)
                ([new_lot buy_jan], Taxman_init)
              = Inr ([], append_tax_event Taxman_init tx))"
proof -
  have k: "kind (sell_jul 1) = Sell"
    by code_simp
  have r: "balance_remove (PRINCIPLE (cfg_2021 False)) [new_lot buy_jan] (sell_jul 1)
             = Inr ([], [SoldCoin buy_jan 1])"
    by code_simp
  have c: "''BTC'' \<noteq> FIAT (cfg_2021 False) \<and> in_tax_year (cfg_2021 False) (sell_jul 1)"
    by code_simp
  have t: "comparable_lots (sell_jul 1) [SoldCoin buy_jan 1]"
    by code_simp
  from sell_emits_realized_event[OF k r, of ext_2021 "''BTC''" Taxman_init] k r c t
  show ?thesis by simp
qed

text \<open>
  A sell in July of one coin bought in January for 100 and sold for 150, with unrealized
  gains not calculated: the taxed gain of the event is 50 and its real gain is 0.
\<close>

theorem taxed_gain_exceeds_real_gain_counterexample:
  "evaluate_sell (cfg_2021 False) ext_2021 ''BTC'' [new_lot buy_jan] (sell_jul 1) False
     = Inr ([], Some (sell_event (sell_jul 1) 50 150 0 [SoldCoin buy_jan 1]))
   \<and> taxed_gain (sell_event (sell_jul 1) 50 150 0 [SoldCoin buy_jan 1]) = 50
   \<and> real_gain (sell_event (sell_jul 1) 50 150 0 [SoldCoin buy_jan 1]) = 0
   \<and> \<not> taxed_gain (sell_event (sell_jul 1) 50 150 0 [SoldCoin buy_jan 1])
         \<le> real_gain (sell_event (sell_jul 1) 50 150 0 [SoldCoin buy_jan 1])
   \<and> \<not> \<bar>taxed_gain (sell_event (sell_jul 1) 50 150 0 [SoldCoin buy_jan 1])\<bar>
         \<le> \<bar>real_gain (sell_event (sell_jul 1) 50 150 0 [SoldCoin buy_jan 1])\<bar>"
  by code_simp

text \<open>
  The decimal sum of the gains of some of the lots is at most that of all lots when the
  lots left out have no negative gain: rounding is monotone, and leaves a sum as it is.
\<close>

lemma dec_add_fixed: "decimal_round (dec_add a g) = dec_add a g"
  by (simp add: dec_add_def decimal_round_idem)

lemma foldl_dec_add_filter_le:
  assumes "list_all (\<lambda>x. P x \<or> 0 \<le> f x) xs" and "a \<le> b" and "decimal_round b = b"
  shows "foldl dec_add a (map f (filter P xs)) \<le> foldl dec_add b (map f xs)"
  using assms
proof (induction xs arbitrary: a b)
  case Nil
  then show ?case by simp
next
  case (Cons x xs)
  have rest: "list_all (\<lambda>x. P x \<or> 0 \<le> f x) xs" using Cons.prems(1) by simp
  show ?case
  proof (cases "P x")
    case True
    have "dec_add a (f x) \<le> dec_add b (f x)"
      using Cons.prems(2) by (simp add: dec_add_def decimal_round_mono)
    from Cons.IH[OF rest this dec_add_fixed] True show ?thesis by simp
  next
    case False
    with Cons.prems(1) have "0 \<le> f x" by simp
    then have "decimal_round b \<le> decimal_round (b + f x)"
      by (intro decimal_round_mono) simp
    with Cons.prems(2,3) have "a \<le> dec_add b (f x)" by (simp add: dec_add_def)
    from Cons.IH[OF rest this dec_add_fixed] False show ?thesis by simp
  qed
qed

text \<open>
  C3, as amended. For a tax event of a sell, in the decimal arithmetic of the code: the
  taxed gain is the sum of the gains of the taxable lots; when unrealized gains are not
  calculated the real gain is zero, whatever the taxed gain; when they are, the real gain
  is the sum of the gains of all lots, and the taxed gain is at most the real gain when
  no exempt lot has a negative gain.
\<close>

theorem taxed_gain_at_most_real_gain:
  assumes "balance_remove (PRINCIPLE cfg) balance op = Inr (balance', sold_coins)"
    and "evaluate_sell cfg ext coin' balance op force = Inr (b, Some tx)"
  shows "taxed_gain tx = decimal_sum (map (gain ext op) (filter (taxable_lot cfg op) sold_coins))
         \<and> real_gain tx =
             (if CALCULATE_UNREALIZED_GAINS cfg then decimal_sum (map (gain ext op) sold_coins)
              else 0)
         \<and> (CALCULATE_UNREALIZED_GAINS cfg
              \<and> list_all (\<lambda>sc. taxable_lot cfg op sc \<or> 0 \<le> gain ext op sc) sold_coins
            \<longrightarrow> taxed_gain tx \<le> real_gain tx)"
proof -
  note e = evaluate_sell_Some[OF assms]
  have "decimal_sum (map (gain ext op) (filter (taxable_lot cfg op) sold_coins))
          \<le> decimal_sum (map (gain ext op) sold_coins)"
    if "list_all (\<lambda>sc. taxable_lot cfg op sc \<or> 0 \<le> gain ext op sc) sold_coins"
    unfolding decimal_sum_def
    using that by (intro foldl_dec_add_filter_le) simp_all
  with e show ?thesis by simp
qed

theorem taxed_gain_at_most_real_gain_witness:
  "balance_remove (PRINCIPLE (cfg_2021 True)) [new_lot buy_2019, new_lot buy_jan] (sell_jul 2)
     = Inr ([], [SoldCoin buy_2019 1, SoldCoin buy_jan 1])
   \<and> evaluate_sell (cfg_2021 True) ext_2021 ''BTC'' [new_lot buy_2019, new_lot buy_jan]
         (sell_jul 2) False
       = Inr ([], Some (sell_event (sell_jul 2) 50 300 100 [SoldCoin buy_2019 1, SoldCoin buy_jan 1]))
   \<and> CALCULATE_UNREALIZED_GAINS (cfg_2021 True)
   \<and> list_all (\<lambda>sc. taxable_lot (cfg_2021 True) (sell_jul 2) sc
                    \<or> 0 \<le> gain ext_2021 (sell_jul 2) sc)
         [SoldCoin buy_2019 1, SoldCoin buy_jan 1]
   \<and> taxed_gain (sell_event (sell_jul 2) 50 300 100 [SoldCoin buy_2019 1, SoldCoin buy_jan 1])
       \<le> real_gain (sell_event (sell_jul 2) 50 300 100 [SoldCoin buy_2019 1, SoldCoin buy_jan 1])"
proof -
  have r: "balance_remove (PRINCIPLE (cfg_2021 True)) [new_lot buy_2019, new_lot buy_jan]
             (sell_jul 2)
           = Inr ([], [SoldCoin buy_2019 1, SoldCoin buy_jan 1])"
    by code_simp
  have e: "evaluate_sell (cfg_2021 True) ext_2021 ''BTC'' [new_lot buy_2019, new_lot buy_jan]
             (sell_jul 2) False
           = Inr ([], Some (sell_event (sell_jul 2) 50 300 100
                              [SoldCoin buy_2019 1, SoldCoin buy_jan 1]))"
    by code_simp
  have u: "CALCULATE_UNREALIZED_GAINS (cfg_2021 True)"
    by code_simp
  have l: "list_all (\<lambda>sc. taxable_lot (cfg_2021 True) (sell_jul 2) sc
                        \<or> 0 \<le> gain ext_2021 (sell_jul 2) sc)
             [SoldCoin buy_2019 1, SoldCoin buy_jan 1]"
    by code_simp
  from taxed_gain_at_most_real_gain[OF r e] r e u l
  show ?thesis by blast
qed

lemma process_ops_Nil_queue:
  "process_ops cfg ext c ops ([], s) = Inr (q, s') \<Longrightarrow> q \<noteq> [] \<Longrightarrow> ops \<noteq> []"
  by auto






text \<open>
  C8. When an operation of the book has a year after the tax year, the evaluation fails
  with the assertion error, and the taxman is untouched: no group was evaluated.
\<close>

theorem operation_after_tax_year_is_fatal:
  assumes "op \<in> set book_operations" and "TAX_YEAR cfg < year (utc_time op)"
  shows "evaluate_taxation cfg ext book_operations self =
           Inl (AssertionError_after_tax_year, self)"
  using assms by (auto simp: evaluate_taxation_def list_all_iff)

theorem operation_after_tax_year_is_fatal_witness:
  "buy_2022 \<in> set [buy_jan, buy_2022]
   \<and> TAX_YEAR (cfg_2021 False) < year (utc_time buy_2022)
   \<and> evaluate_taxation (cfg_2021 False) ext_2021 [buy_jan, buy_2022] Taxman_init
       = Inl (AssertionError_after_tax_year, Taxman_init)"
proof -
  have m: "buy_2022 \<in> set [buy_jan, buy_2022]"
    by simp
  have y: "TAX_YEAR (cfg_2021 False) < year (utc_time buy_2022)"
    by (simp add: example_defs model_defs)
  from operation_after_tax_year_is_fatal[OF m y, of ext_2021 Taxman_init] m y
  show ?thesis by simp
qed

text \<open>
  C9. For the home fiat currency the evaluation of a sell is the removal from the balance
  queue, with no tax event: it raises when the queue holds less than the amount, and
  otherwise (on a queue of positive lots) returns the queue with the balance lowered by
  the amount.
\<close>

theorem fiat_sell_still_removes:
  assumes "coin' = FIAT cfg"
  shows "evaluate_sell cfg ext coin' balance op force =
           (case balance_remove (PRINCIPLE cfg) balance op of
              Inl e \<Rightarrow> Inl e
            | Inr (balance', sold_coins) \<Rightarrow> Inr (balance', None))
         \<and> (sum_list (map not_sold balance) < \<bar>change op\<bar> \<longrightarrow>
              evaluate_sell cfg ext coin' balance op force = Inl InsufficientBalance)
         \<and> (positive_lots balance \<and> \<bar>change op\<bar> \<le> sum_list (map not_sold balance) \<longrightarrow>
              (\<exists>balance'. evaluate_sell cfg ext coin' balance op force = Inr (balance', None)
                 \<and> sum_list (map not_sold balance')
                     = sum_list (map not_sold balance) - \<bar>change op\<bar>))"
proof -
  have 1: "evaluate_sell cfg ext coin' balance op force =
           (case balance_remove (PRINCIPLE cfg) balance op of
              Inl e \<Rightarrow> Inl e
            | Inr (balance', sold_coins) \<Rightarrow> Inr (balance', None))"
    using assms by (simp add: evaluate_sell_def split: sum.splits prod.splits)
  have 2: "evaluate_sell cfg ext coin' balance op force = Inl InsufficientBalance"
    if "sum_list (map not_sold balance) < \<bar>change op\<bar>"
    using that by (simp add: 1 balance_remove_def)
  have 3: "\<exists>balance'. evaluate_sell cfg ext coin' balance op force = Inr (balance', None)
                 \<and> sum_list (map not_sold balance')
                     = sum_list (map not_sold balance) - \<bar>change op\<bar>"
    if p: "positive_lots balance" and le: "\<bar>change op\<bar> \<le> sum_list (map not_sold balance)"
  proof -
    obtain balance' scs where
      rm: "balance_remove (PRINCIPLE cfg) balance op = Inr (balance', scs)"
      using le by (cases "consume (eligible (PRINCIPLE cfg) balance) \<bar>change op\<bar>")
        (auto simp: balance_remove_def)
    with balance_remove_not_sold[OF p rm] show ?thesis by (simp add: 1)
  qed
  from 1 2 3 show ?thesis by blast
qed

theorem fiat_sell_still_removes_witness:
  "''EUR'' = FIAT (cfg_2021 False)
   \<and> evaluate_sell (cfg_2021 False) ext_2021 ''EUR'' [new_lot deposit_eur] (sell_eur 40) False
       = Inr ([(new_lot deposit_eur)\<lparr>remaining_amount := 60\<rparr>], None)
   \<and> positive_lots [new_lot deposit_eur]
   \<and> \<bar>change (sell_eur 40)\<bar> \<le> sum_list (map not_sold [new_lot deposit_eur])
   \<and> sum_list (map not_sold [(new_lot deposit_eur)\<lparr>remaining_amount := 60\<rparr>])
       = sum_list (map not_sold [new_lot deposit_eur]) - \<bar>change (sell_eur 40)\<bar>
   \<and> sum_list (map not_sold [new_lot deposit_eur]) < \<bar>change (sell_eur 200)\<bar>
   \<and> evaluate_sell (cfg_2021 False) ext_2021 ''EUR'' [new_lot deposit_eur] (sell_eur 200) False
       = Inl InsufficientBalance"
proof -
  have c: "''EUR'' = FIAT (cfg_2021 False)"
    by (simp add: example_defs)
  have r: "balance_remove (PRINCIPLE (cfg_2021 False)) [new_lot deposit_eur] (sell_eur 40)
             = Inr ([(new_lot deposit_eur)\<lparr>remaining_amount := 60\<rparr>],
                    [SoldCoin deposit_eur 40])"
    by (simp add: example_defs model_defs)
  have l: "sum_list (map not_sold [new_lot deposit_eur]) < \<bar>change (sell_eur 200)\<bar>"
    by (simp add: example_defs model_defs)
  note t40 = fiat_sell_still_removes[OF c, of ext_2021 "[new_lot deposit_eur]" "sell_eur 40" False]
  note t200 = fiat_sell_still_removes[OF c, of ext_2021 "[new_lot deposit_eur]" "sell_eur 200" False]
  have a: "evaluate_sell (cfg_2021 False) ext_2021 ''EUR'' [new_lot deposit_eur] (sell_eur 40) False
       = Inr ([(new_lot deposit_eur)\<lparr>remaining_amount := 60\<rparr>], None)"
    using t40[THEN conjunct1] by (simp only: r sum.case prod.case)
  have b: "evaluate_sell (cfg_2021 False) ext_2021 ''EUR'' [new_lot deposit_eur] (sell_eur 200) False
       = Inl InsufficientBalance"
    using t200[THEN conjunct2, THEN conjunct1] l by blast
  have p: "positive_lots [new_lot deposit_eur]"
    and q: "\<bar>change (sell_eur 40)\<bar> \<le> sum_list (map not_sold [new_lot deposit_eur])"
    by (simp_all add: example_defs model_defs positive_lots_def)
  from t40[THEN conjunct2, THEN conjunct2] p q a
  have d: "sum_list (map not_sold [(new_lot deposit_eur)\<lparr>remaining_amount := 60\<rparr>])
       = sum_list (map not_sold [new_lot deposit_eur]) - \<bar>change (sell_eur 40)\<bar>"
    by auto
  from c a p q d l b show ?thesis by blast
qed

section \<open>Capital income\<close>

lemma evaluate_sell_taxation_type:
  "evaluate_sell cfg ext c q op force = Inr (q', Some tx)
   \<Longrightarrow> taxation_type tx = Sonstige_Einkuenfte"
  by (auto simp: evaluate_sell_def split: sum.splits prod.splits if_splits)

lemma process_op_justified:
  assumes "op \<in> set B" and "capital_income_justified cfg ext c B s0 s"
    and "process_op cfg ext c op (q, s) = Inr (q', s')"
  shows "capital_income_justified cfg ext c B s0 s'"
proof (cases "kind op")
  case Sell
  with assms show ?thesis
    by (auto simp: process_op_def interest_branch_def capital_income_justified_def append_tax_event_def
             split: sum.splits prod.splits option.splits
             dest!: evaluate_sell_taxation_type)
next
  case CoinLendInterest
  with assms show ?thesis
    by (auto simp: process_op_def interest_branch_def capital_income_justified_def append_tax_event_def
                   TaxEvent_def
             split: sum.splits if_splits)
qed (use assms in \<open>auto simp: process_op_def interest_branch_def capital_income_justified_def
       append_tax_event_def TaxEvent_def log_warning_def
       split: sum.splits prod.splits if_splits\<close>)

lemma process_ops_justified:
  assumes "set ops \<subseteq> set B" and "capital_income_justified cfg ext c B s0 s"
  shows "(process_ops cfg ext c ops (q, s) = Inl (e, s')
            \<longrightarrow> capital_income_justified cfg ext c B s0 s')
         \<and> (process_ops cfg ext c ops (q, s) = Inr (q', s')
            \<longrightarrow> capital_income_justified cfg ext c B s0 s')"
  using assms
proof (induction ops arbitrary: q s)
  case Nil
  then show ?case by auto
next
  case (Cons op ops)
  show ?case
  proof (cases "process_op cfg ext c op (q, s)")
    case (Inl err)
    with Cons.prems show ?thesis by auto
  next
    case (Inr st1)
    obtain q1 s1 where st1: "st1 = (q1, s1)" by (cases st1)
    have "capital_income_justified cfg ext c B s0 s1"
      using process_op_justified[of op B cfg ext c s0 s q q1 s1] Cons.prems Inr st1 by simp
    with Cons.IH[of s1 q1] Cons.prems(1) Inr st1 show ?thesis by simp
  qed
qed

lemma evaluate_taxation_GERMANY_justified:
  "capital_income_justified cfg ext c ops s
     (final_taxman (evaluate_taxation_GERMANY cfg ext c ops s))"
proof -
  have init: "capital_income_justified cfg ext c ops s s"
    by (simp add: capital_income_justified_def)
  note loop = process_ops_justified[OF subset_refl init]
  show ?thesis
  proof (cases "process_ops cfg ext c ops ([], s)")
    case (Inl x)
    obtain e s' where "x = (e, s')" by (cases x)
    with Inl loop[where q = "[]" and e = e and s' = s'] show ?thesis
      by (simp add: evaluate_taxation_GERMANY_def final_taxman_def)
  next
    case (Inr st)
    obtain q s' where st: "st = (q, s')" by (cases st)
    with Inr loop[where q = "[]" and q' = q and s' = s']
    have j: "capital_income_justified cfg ext c ops s s'"
      by simp
    then have "capital_income_justified cfg ext c ops s
        (s'\<lparr>virtual_tax_events := virtual_tax_events s' @ [tx]\<rparr>)"
      if "taxation_type tx = Sonstige_Einkuenfte" for tx
      using that by (auto simp: capital_income_justified_def)
    with j Inr st show ?thesis
      by (auto simp: evaluate_taxation_GERMANY_def final_taxman_def
               split: sum.splits prod.splits option.splits
               dest!: evaluate_sell_taxation_type)
  qed
qed

text \<open>
  C10. A staking interest on a fiat coin in the tax year always raises: the assertion
  error when its amount is positive (the queue takes it first), in the step and hence in
  the group once the operations before it have passed. And whatever a group's evaluation
  ends with, raised or not, a capital income event that was not in the lists before is
  the event of a lending interest operation of the group, on a fiat coin, in the tax
  year.
\<close>

theorem staking_interest_on_fiat_aborts:
  "(kind op = StakingInterest \<and> is_fiat ext coin' \<and> in_tax_year cfg op
      \<longrightarrow> (\<exists>e. process_op cfg ext coin' op (balance, self) = Inl e)
          \<and> (0 < change op
              \<longrightarrow> process_op cfg ext coin' op (balance, self) = Inl AssertionError_stake_fiat
                  \<and> evaluate_taxation_GERMANY cfg ext coin' (pre @ op # post) self =
                      (case process_ops cfg ext coin' pre ([], self) of
                         Inl x \<Rightarrow> Inl x
                       | Inr (balance1, self1) \<Rightarrow> Inl (AssertionError_stake_fiat, self1))))
   \<and> capital_income_justified cfg ext coin' operations self
        (final_taxman (evaluate_taxation_GERMANY cfg ext coin' operations self))"
proof -
  have "process_op cfg ext coin' op st =
          Inl (if change op \<le> 0 then NonPositiveChange else AssertionError_stake_fiat)"
    if "kind op = StakingInterest" "is_fiat ext coin'" "in_tax_year cfg op" for st
    using that by (auto simp: process_op_def interest_branch_def balance_add_def split: prod.splits)
  then show ?thesis
    unfolding evaluate_taxation_GERMANY_def process_ops_append
    by (auto simp: evaluate_taxation_GERMANY_justified[unfolded evaluate_taxation_GERMANY_def]
             split: sum.splits prod.splits)
qed

theorem staking_interest_on_fiat_aborts_witness:
  "kind staking_eur = StakingInterest
   \<and> is_fiat ext_2021 ''EUR''
   \<and> in_tax_year (cfg_2021 False) staking_eur
   \<and> 0 < change staking_eur
   \<and> process_op (cfg_2021 False) ext_2021 ''EUR'' staking_eur ([], Taxman_init)
       = Inl AssertionError_stake_fiat
   \<and> evaluate_taxation_GERMANY (cfg_2021 False) ext_2021 ''EUR''
         ([deposit_eur] @ staking_eur # [lending_eur]) Taxman_init
       = Inl (AssertionError_stake_fiat, Taxman_init)
   \<and> evaluate_taxation_GERMANY (cfg_2021 False) ext_2021 ''EUR'' [lending_eur] Taxman_init
       = Inr \<lparr>tax_events = [TaxEvent Einkuenfte_aus_Kapitalvermoegen 5 lending_eur],
              virtual_tax_events = [], warnings = []\<rparr>
   \<and> capital_income_justified (cfg_2021 False) ext_2021 ''EUR'' [lending_eur] Taxman_init
        \<lparr>tax_events = [TaxEvent Einkuenfte_aus_Kapitalvermoegen 5 lending_eur],
         virtual_tax_events = [], warnings = []\<rparr>"
proof -
  have h: "kind staking_eur = StakingInterest \<and> is_fiat ext_2021 ''EUR''
     \<and> in_tax_year (cfg_2021 False) staking_eur \<and> 0 < change staking_eur"
    by (simp add: example_defs model_defs)
  have p: "process_ops (cfg_2021 False) ext_2021 ''EUR'' [deposit_eur] ([], Taxman_init)
             = Inr ([new_lot deposit_eur], Taxman_init)"
    by (simp add: example_defs model_defs)
  have g: "evaluate_taxation_GERMANY (cfg_2021 False) ext_2021 ''EUR'' [lending_eur] Taxman_init
       = Inr \<lparr>tax_events = [TaxEvent Einkuenfte_aus_Kapitalvermoegen 5 lending_eur],
              virtual_tax_events = [], warnings = []\<rparr>"
    by (simp add: example_defs model_defs)
  from staking_interest_on_fiat_aborts[of staking_eur ext_2021 "''EUR''" "cfg_2021 False"
      "[]" Taxman_init "[deposit_eur]" "[lending_eur]" "[lending_eur]"] h p g
  show ?thesis by (simp add: final_taxman_def)
qed

text \<open>
  The coin a group is evaluated with is the coin of each of its operations.
\<close>

lemma group_by_key:
  "(k, g) \<in> set (group_by key xs) \<Longrightarrow> x \<in> set g \<Longrightarrow> key x = k \<and> x \<in> set xs"
  by (induction key xs rule: group_by.induct) auto

end
